theory Spec2Isabelle
  imports
    Main
    "HOL-Library.Sublist"
    "HOL-Library.AList"
    "HOL-Library.Multiset"
    "HOL-Library.List_Lexorder"
begin

section \<open>Python strings\<close>

text \<open>
  A Python \<open>str\<close> is a sequence of Unicode code points. The program's literals are
  Cyrillic, so a string is modelled as the list of its code points (\<open>nat\<close>), not as a
  list of bytes: \<open>length\<close>, equality and substring search then count what Python counts.
\<close>

type_synonym ustr = "nat list"

text \<open>\<open>sub in s\<close> on strings: \<open>sub\<close> occurs in \<open>s\<close> as a contiguous block.\<close>

definition py_in :: "ustr \<Rightarrow> ustr \<Rightarrow> bool" where
  "py_in sub s = sublist sub s"

text \<open>
  \<open>str.strip()\<close> without argument removes leading and trailing whitespace; whitespace is
  what \<open>str.isspace\<close> accepts: U+0009..U+000D, U+001C..U+0020, U+0085, U+00A0, U+1680,
  U+2000..U+200A, U+2028, U+2029, U+202F, U+205F, U+3000.
\<close>

definition is_space :: "nat \<Rightarrow> bool" where
  "is_space c \<longleftrightarrow>
     (9 \<le> c \<and> c \<le> 13) \<or> (28 \<le> c \<and> c \<le> 32) \<or> c = 133 \<or> c = 160 \<or> c = 5760 \<or>
     (8192 \<le> c \<and> c \<le> 8202) \<or> c = 8232 \<or> c = 8233 \<or> c = 8239 \<or> c = 8287 \<or> c = 12288"

definition lstrip :: "ustr \<Rightarrow> ustr" where
  "lstrip s = dropWhile is_space s"

definition rstrip :: "ustr \<Rightarrow> ustr" where
  "rstrip s = rev (dropWhile is_space (rev s))"

definition strip :: "ustr \<Rightarrow> ustr" where
  "strip s = rstrip (lstrip s)"

text \<open>
  \<open>str.lower()\<close>, code point by code point, on the scripts of the program's own literals
  and of the spreadsheets it is written for: Basic Latin (A..Z), Latin-1 Supplement
  (U+00C0..U+00DE without the multiplication sign U+00D7) and Cyrillic (U+0400..U+040F
  to U+0450..U+045F, U+0410..U+042F to U+0430..U+044F). Code points outside these three
  blocks are returned as they are. The general theorems below use \<open>py_lower\<close> as given
  and never look inside it; only the concrete examples evaluate it.
\<close>

definition lower_cp :: "nat \<Rightarrow> nat" where
  "lower_cp c =
     (if 65 \<le> c \<and> c \<le> 90 then c + 32
      else if 192 \<le> c \<and> c \<le> 222 \<and> c \<noteq> 215 then c + 32
      else if 1024 \<le> c \<and> c \<le> 1039 then c + 80
      else if 1040 \<le> c \<and> c \<le> 1071 then c + 32
      else c)"

definition py_lower :: "ustr \<Rightarrow> ustr" where
  "py_lower s = map lower_cp s"

text \<open>\<open>' '.join(parts)\<close>.\<close>

fun join_sp :: "ustr list \<Rightarrow> ustr" where
  "join_sp [] = []"
| "join_sp [p] = p"
| "join_sp (p # q # ps) = p @ [32] @ join_sp (q # ps)"

section \<open>Attribute matching (\<open>match_attributes\<close>, \<open>extract_columns_from_records\<close>)\<close>

text \<open>
  What \<open>pandas.read_excel\<close> delivers for a records file: the column labels, each given
  by its \<open>str()\<close> text, and the data rows. A data cell is \<open>None\<close> when \<open>pd.notna\<close> is
  false for it (NaN, None, NaT) and \<open>Some t\<close> otherwise, \<open>t\<close> being the cell's \<open>str()\<close>
  text. A file that cannot be read is \<open>None\<close> at the place where it is passed.
\<close>

record dataframe =
  df_columns :: "ustr list"
  df_rows :: "ustr option list list"

text \<open>
  \<open>extract_columns_from_records\<close>: the stripped labels in column order; any exception
  while reading gives the empty list.
\<close>

fun extract_columns_from_records :: "dataframe option \<Rightarrow> ustr list" where
  "extract_columns_from_records None = []"
| "extract_columns_from_records (Some df) = map strip (df_columns df)"

text \<open>
  \<open>match_attributes\<close>: the loop appends the stripped attribute to \<open>matched\<close> or to
  \<open>missing\<close>; the two lists are threaded through as the loop state.
\<close>

fun match_loop :: "ustr list \<Rightarrow> ustr list \<Rightarrow> ustr list \<times> ustr list \<Rightarrow> ustr list \<times> ustr list" where
  "match_loop [] record_columns (matched, missing) = (matched, missing)"
| "match_loop (attr # attrs) record_columns (matched, missing) =
     (let attr_clean = strip attr in
      if attr_clean \<in> set record_columns
      then match_loop attrs record_columns (matched @ [attr_clean], missing)
      else match_loop attrs record_columns (matched, missing @ [attr_clean]))"

definition match_attributes :: "ustr list \<Rightarrow> ustr list \<Rightarrow> ustr list \<times> ustr list" where
  "match_attributes template_attributes record_columns =
     match_loop template_attributes record_columns ([], [])"

section \<open>Schema extraction (\<open>extract_attributes_from_template\<close>)\<close>

text \<open>
  A cell value as \<open>openpyxl\<close> hands it over with \<open>values_only=True\<close>: \<open>None\<close>, a
  string, or a value of another type (number, boolean, date). The code asks three things
  of a cell: whether it is \<open>None\<close>, its truth value (\<open>if cell:\<close>) and its \<open>str()\<close>
  text; a value of another type carries the last two.
\<close>

datatype cell = Empty | Text ustr | Other bool ustr

fun cell_truthy :: "cell \<Rightarrow> bool" where
  "cell_truthy Empty = False"
| "cell_truthy (Text s) = (s \<noteq> [])"
| "cell_truthy (Other b t) = b"

text \<open>\<open>str(cell)\<close>; \<open>str(None)\<close> is the text \<open>None\<close>.\<close>

fun cell_str :: "cell \<Rightarrow> ustr" where
  "cell_str Empty = [78, 111, 110, 101]"
| "cell_str (Text s) = s"
| "cell_str (Other b t) = t"

text \<open>\<open>str(cell) if cell is not None else ''\<close>.\<close>

fun row_value :: "cell \<Rightarrow> ustr" where
  "row_value Empty = []"
| "row_value c = cell_str c"

text \<open>The two markers of the header row: "Ob'ekt dannykh" and "Bazovaya edinitsa izmereniya".\<close>

definition data_object :: ustr where
  "data_object = [1054, 1073, 1098, 1077, 1082, 1090, 32, 1076, 1072, 1085, 1085, 1099, 1093]"

definition base_unit :: ustr where
  "base_unit = [1041, 1072, 1079, 1086, 1074, 1072, 1103, 32, 1077, 1076, 1080, 1085, 1080,
     1094, 1072, 32, 1080, 1079, 1084, 1077, 1088, 1077, 1085, 1080, 1103]"

text \<open>
  The inner loop over the cells of the header row. It returns the attribute list and
  \<open>stop_attributes\<close>; the flag is set by the \<open>break\<close> at the first cell that holds the
  end marker.
\<close>

fun scan_cells :: "cell list \<Rightarrow> ustr list \<Rightarrow> ustr list \<times> bool" where
  "scan_cells [] attrs = (attrs, False)"
| "scan_cells (c # cs) attrs =
     (if cell_truthy c then
        (let cell_text = strip (cell_str c) in
         if py_in base_unit cell_text then (attrs, True)
         else if cell_text \<noteq> [] \<and> py_in data_object cell_text
           then scan_cells cs (attrs @ [data_object])
         else if cell_text \<noteq> [] \<and> cell_text \<notin> set attrs
           then scan_cells cs (attrs @ [cell_text])
         else scan_cells cs attrs)
      else scan_cells cs attrs)"

record scan_state =
  attributes :: "ustr list"
  found_start :: bool
  stop_attributes :: bool

text \<open>The outer loop over the rows that \<open>iter_rows(min_row=1, max_row=3)\<close> yields.\<close>

fun scan_rows :: "cell list list \<Rightarrow> scan_state \<Rightarrow> scan_state" where
  "scan_rows [] st = st"
| "scan_rows (r # rs) st =
     (if stop_attributes st then st
      else
        (let row_str = join_sp (map row_value r) in
         if py_in data_object row_str \<and> \<not> found_start st then
           (case scan_cells r (attributes st) of
              (attrs, stop) \<Rightarrow>
                scan_rows rs \<lparr>attributes = attrs, found_start = True, stop_attributes = stop\<rparr>)
         else scan_rows rs st))"

text \<open>
  Lines 23 to 56: the attributes collected from the workbook; \<open>None\<close> is a workbook
  whose reading raises, which the \<open>except\<close> turns into the empty list.
\<close>

fun collect_attributes :: "cell list list option \<Rightarrow> ustr list" where
  "collect_attributes None = []"
| "collect_attributes (Some grid) =
     attributes (scan_rows (take 3 grid)
       \<lparr>attributes = [], found_start = False, stop_attributes = False\<rparr>)"

text \<open>
  The five excluded labels: "Kod iz sistemy istochnika", "Naimenovanie",
  "Naimenovanie iz sistemy istochnika", "Polnoe naimenovanie", "Status".
\<close>

definition excluded_attributes :: "ustr list" where
  "excluded_attributes =
     [[1050, 1086, 1076, 32, 1080, 1079, 32, 1089, 1080, 1089, 1090, 1077, 1084, 1099, 32,
       1080, 1089, 1090, 1086, 1095, 1085, 1080, 1082, 1072],
      [1053, 1072, 1080, 1084, 1077, 1085, 1086, 1074, 1072, 1085, 1080, 1077],
      [1053, 1072, 1080, 1084, 1077, 1085, 1086, 1074, 1072, 1085, 1080, 1077, 32, 1080, 1079,
       32, 1089, 1080, 1089, 1090, 1077, 1084, 1099, 32, 1080, 1089, 1090, 1086, 1095, 1085,
       1080, 1082, 1072],
      [1055, 1086, 1083, 1085, 1086, 1077, 32, 1085, 1072, 1080, 1084, 1077, 1085, 1086, 1074,
       1072, 1085, 1080, 1077],
      [1057, 1090, 1072, 1090, 1091, 1089]]"

text \<open>The loop over the excluded labels, left at the first label that applies.\<close>

fun is_excluded :: "ustr \<Rightarrow> ustr list \<Rightarrow> bool" where
  "is_excluded attr_lower [] = False"
| "is_excluded attr_lower (excluded # rest) =
     (let excluded_lower = py_lower excluded in
      if excluded_lower = attr_lower \<or> py_in excluded_lower attr_lower
         \<or> py_in attr_lower excluded_lower
      then True
      else is_excluded attr_lower rest)"

fun filter_attributes :: "ustr list \<Rightarrow> ustr list" where
  "filter_attributes [] = []"
| "filter_attributes (attr # rest) =
     (if attr \<noteq> [] \<and> strip attr \<noteq> [] then
        (if is_excluded (py_lower (strip attr)) excluded_attributes
         then filter_attributes rest
         else strip attr # filter_attributes rest)
      else filter_attributes rest)"

definition extract_attributes_from_template :: "cell list list option \<Rightarrow> ustr list" where
  "extract_attributes_from_template wb = filter_attributes (collect_attributes wb)"

section \<open>Value extraction (\<open>extract_values_from_records\<close>)\<close>

text \<open>The texts that are not values: the empty string, "nan", "none", "null".\<close>

definition skip_values :: "ustr list" where
  "skip_values = [[], [110, 97, 110], [110, 111, 110, 101], [110, 117, 108, 108]]"

text \<open>
  \<open>row[attr]\<close> for a label that occurs once among the stripped column labels; a row that
  is shorter than the header has NaN in the missing places.
\<close>

definition cell_at :: "ustr list \<Rightarrow> ustr option list \<Rightarrow> ustr \<Rightarrow> ustr option" where
  "cell_at cols r attr = (case map_of (zip cols r) attr of None \<Rightarrow> None | Some v \<Rightarrow> v)"

text \<open>
  The loop over the matched attributes for one row. When two columns have the same
  stripped label, \<open>row[attr]\<close> is a Series and its truth value raises \<open>ValueError\<close>:
  the result \<open>None\<close>. The record is a dict, kept as an association list in insertion
  order.
\<close>

fun record_of_row ::
  "ustr list \<Rightarrow> ustr option list \<Rightarrow> ustr list \<Rightarrow> (ustr \<times> ustr) list \<Rightarrow> (ustr \<times> ustr) list option" where
  "record_of_row cols r [] record_values = Some record_values"
| "record_of_row cols r (attr # attrs) record_values =
     (if attr \<in> set cols then
        (if 1 < count_list cols attr then None
         else
           (case cell_at cols r attr of
              None \<Rightarrow> record_of_row cols r attrs record_values
            | Some raw \<Rightarrow>
                (let v = strip raw in
                 if v \<noteq> [] \<and> py_lower v \<notin> set skip_values
                 then record_of_row cols r attrs (AList.update attr v record_values)
                 else record_of_row cols r attrs record_values)))
      else record_of_row cols r attrs record_values)"

text \<open>
  The loop over the rows; an exception leaves it through the \<open>except\<close>, and the function
  returns the records appended so far.
\<close>

fun values_loop ::
  "ustr list \<Rightarrow> ustr option list list \<Rightarrow> ustr list \<Rightarrow> (ustr \<times> ustr) list list \<Rightarrow> (ustr \<times> ustr) list list" where
  "values_loop cols [] attrs vals = vals"
| "values_loop cols (r # rs) attrs vals =
     (case record_of_row cols r attrs [] of
        None \<Rightarrow> vals
      | Some record_values \<Rightarrow>
          values_loop cols rs attrs
            (if record_values \<noteq> [] then vals @ [record_values] else vals))"

fun extract_values_from_records :: "dataframe option \<Rightarrow> ustr list \<Rightarrow> (ustr \<times> ustr) list list" where
  "extract_values_from_records None matched_attributes = []"
| "extract_values_from_records (Some df) matched_attributes =
     values_loop (map strip (df_columns df)) (df_rows df) matched_attributes []"

section \<open>The folder tree and its traversal (\<open>process_extracted_structure\<close>)\<close>

text \<open>
  The extracted archive: a file has a name and its content as the two readers see it
  (the active sheet's rows for \<open>openpyxl\<close>, the frame for \<open>pandas\<close>, each \<open>None\<close> when
  that reader raises); a directory has a name and its entries in the order in which
  \<open>iterdir\<close> yields them.
\<close>

datatype node =
  File ustr "cell list list option" "dataframe option"
| Dir ustr "node list"

fun node_name :: "node \<Rightarrow> ustr" where
  "node_name (File n w d) = n"
| "node_name (Dir n es) = n"

fun is_dir :: "node \<Rightarrow> bool" where
  "is_dir (File n w d) = False"
| "is_dir (Dir n es) = True"

fun is_file :: "node \<Rightarrow> bool" where
  "is_file (File n w d) = True"
| "is_file (Dir n es) = False"

fun entries :: "node \<Rightarrow> node list" where
  "entries (File n w d) = []"
| "entries (Dir n es) = es"

fun workbook_of :: "node \<Rightarrow> cell list list option" where
  "workbook_of (File n w d) = w"
| "workbook_of (Dir n es) = None"

fun frame_of :: "node \<Rightarrow> dataframe option" where
  "frame_of (File n w d) = d"
| "frame_of (Dir n es) = None"

record extracted_record =
  rec_attribute :: ustr
  rec_template :: ustr
  rec_class :: ustr
  rec_value :: ustr

record missing_stat =
  ms_class :: ustr
  ms_template :: ustr
  ms_attribute :: ustr
  ms_status :: ustr

text \<open>"Otsutstvuet v faile zapisei", the status text of a missing attribute.\<close>

definition absent_status :: ustr where
  "absent_status = [1054, 1090, 1089, 1091, 1090, 1089, 1090, 1074, 1091, 1077, 1090, 32, 1074,
     32, 1092, 1072, 1081, 1083, 1077, 32, 1079, 1072, 1087, 1080, 1089, 1077, 1081]"

text \<open>The name of the root folder, "Ontologiya GRM", and the two file-name keys.\<close>

definition ontology_grm :: ustr where
  "ontology_grm = [1054, 1085, 1090, 1086, 1083, 1086, 1075, 1080, 1103, 32, 1043, 1056, 1052]"

definition template_key :: ustr where
  "template_key = [1096, 1072, 1073, 1083, 1086, 1085, 46, 120, 108, 115, 120]"

definition records_key :: ustr where
  "records_key = [1087, 1088, 1077, 1076, 1079, 1072, 1087, 46, 120, 108, 115, 120]"

text \<open>
  The loop over the entries of a template folder; the state is the pair
  \<open>(template_file, records_file)\<close>, each assignment replacing the earlier one.
\<close>

fun find_files :: "node list \<Rightarrow> node option \<times> node option \<Rightarrow> node option \<times> node option" where
  "find_files [] (template_file, records_file) = (template_file, records_file)"
| "find_files (f # fs) (template_file, records_file) =
     (if is_file f then
        (let filename = py_lower (node_name f) in
         if py_in template_key filename then find_files fs (Some f, records_file)
         else if py_in records_key filename then find_files fs (template_file, Some f)
         else find_files fs (template_file, records_file))
      else find_files fs (template_file, records_file))"

text \<open>
  The body of the loop over the template folders, once both files are found: it
  returns the two accumulators \<open>(all_data, missing_stats)\<close>.
\<close>

definition process_pair ::
  "ustr \<Rightarrow> ustr \<Rightarrow> node \<Rightarrow> node \<Rightarrow> extracted_record list \<times> missing_stat list
     \<Rightarrow> extracted_record list \<times> missing_stat list" where
  "process_pair class_name template_name template_file records_file acc =
     (let template_attributes = extract_attributes_from_template (workbook_of template_file) in
      if template_attributes \<noteq> [] then
        (let record_columns = extract_columns_from_records (frame_of records_file);
             matched_attrs = fst (match_attributes template_attributes record_columns);
             missing_attrs = snd (match_attributes template_attributes record_columns);
             stats = snd acc @
               map (\<lambda>missing_attr.
                     \<lparr>ms_class = class_name, ms_template = template_name,
                      ms_attribute = missing_attr, ms_status = absent_status\<rparr>) missing_attrs
         in
           if matched_attrs \<noteq> [] then
             (fst acc @
                concat (map (\<lambda>record_values.
                    map (\<lambda>(attr, v).
                          \<lparr>rec_attribute = attr, rec_template = template_name,
                           rec_class = class_name, rec_value = v\<rparr>) record_values)
                  (extract_values_from_records (frame_of records_file) matched_attrs)),
              stats)
           else (fst acc, stats))
      else acc)"

definition process_template_dir ::
  "ustr \<Rightarrow> ustr \<Rightarrow> node list \<Rightarrow> extracted_record list \<times> missing_stat list
     \<Rightarrow> extracted_record list \<times> missing_stat list" where
  "process_template_dir class_name template_name files acc =
     (case find_files files (None, None) of
        (Some template_file, Some records_file) \<Rightarrow>
          process_pair class_name template_name template_file records_file acc
      | _ \<Rightarrow> acc)"

text \<open>\<open>all_dirs\<close>: class name, template name and the entries of the template folder.\<close>

definition all_dirs :: "node \<Rightarrow> (ustr \<times> ustr \<times> node list) list" where
  "all_dirs root_path =
     concat (map (\<lambda>class_dir.
         map (\<lambda>template_dir. (node_name class_dir, node_name template_dir, entries template_dir))
           (filter is_dir (entries class_dir)))
       (filter is_dir (entries root_path)))"

fun process_dirs ::
  "(ustr \<times> ustr \<times> node list) list \<Rightarrow> extracted_record list \<times> missing_stat list
     \<Rightarrow> extracted_record list \<times> missing_stat list" where
  "process_dirs [] acc = acc"
| "process_dirs ((class_name, template_name, files) # ds) acc =
     process_dirs ds (process_template_dir class_name template_name files acc)"

section \<open>The environment of a run\<close>

text \<open>
  What a run depends on besides the upload. A sheet is what one call of \<open>to_excel\<close>
  writes: the rows of a reference file, of the consolidated file or of the file of
  missing attributes. The environment says
  \<^item> which of the directories named "Ontologiya GRM" \<open>rglob\<close> yields first, as an index
    into the list of these directories (the order of \<open>rglob\<close> differs between versions
    of \<open>pathlib\<close>);
  \<^item> whether \<open>to_excel\<close> succeeds for a file name and a sheet (it raises for a name that
    the file system refuses, for a sheet with too many rows, for a text that the
    workbook writer refuses);
  \<^item> whether the README can be written;
  \<^item> whether the archive of results can be created.
\<close>

datatype sheet =
  ReferenceSheet "(ustr \<times> ustr) list"
| SummarySheet "extracted_record list"
| StatsSheet "missing_stat list"

record env =
  rglob_first :: "node list \<Rightarrow> nat"
  to_excel_ok :: "ustr \<Rightarrow> sheet \<Rightarrow> bool"
  readme_ok :: bool
  zip_ok :: bool

section \<open>Root folder and traversal\<close>

text \<open>
  \<open>rglob(name)\<close> with a literal name yields the entries of that name in the directory
  and in all directories below it; here they are listed parents first.
\<close>

fun rglob :: "ustr \<Rightarrow> node \<Rightarrow> node list" where
  "rglob nm (File n w d) = []"
| "rglob nm (Dir n es) = filter (\<lambda>e. node_name e = nm) es @ concat (map (rglob nm) es)"

text \<open>
  The root folder: the directory named "Ontologiya GRM" that \<open>rglob\<close> yields first (the
  environment's choice among the directories of that name); when there is none, the
  first entry of the extraction directory, if that entry is a directory.
\<close>

definition find_root :: "env \<Rightarrow> node list \<Rightarrow> node option" where
  "find_root e items =
     (case filter is_dir (rglob ontology_grm (Dir [] items)) of
        [] \<Rightarrow>
          (case items of
             [] \<Rightarrow> None
           | first_item # others \<Rightarrow> if is_dir first_item then Some first_item else None)
      | found # others \<Rightarrow>
          Some ((found # others) ! (rglob_first e (found # others) mod length (found # others))))"

text \<open>\<open>ValueError\<close> of the traversal, and an exception raised while the results are written.\<close>

datatype error = StructureError | WriteError

definition process_extracted_structure ::
  "env \<Rightarrow> node list \<Rightarrow> error + extracted_record list \<times> missing_stat list" where
  "process_extracted_structure e items =
     (case find_root e items of
        None \<Rightarrow> Inl StructureError
      | Some root_path \<Rightarrow> Inr (process_dirs (all_dirs root_path) ([], [])))"

section \<open>Aggregation and output (\<open>collapse_duplicate_values\<close>, \<open>create_output_files\<close>)\<close>

text \<open>
  \<open>collapsed\<close> is a dict from attribute to a set of values, kept as an association list
  in insertion order.
\<close>

fun collapse_loop :: "extracted_record list \<Rightarrow> (ustr \<times> ustr set) list \<Rightarrow> (ustr \<times> ustr set) list" where
  "collapse_loop [] collapsed = collapsed"
| "collapse_loop (item # items) collapsed =
     (let attr = rec_attribute item;
          v = rec_value item;
          collapsed1 = (if attr \<notin> set (map fst collapsed) then collapsed @ [(attr, {})]
                        else collapsed);
          collapsed2 = (if v \<noteq> [] then AList.map_entry attr (insert v) collapsed1
                        else collapsed1)
      in collapse_loop items collapsed2)"

definition collapse_duplicate_values :: "extracted_record list \<Rightarrow> (ustr \<times> ustr set) list" where
  "collapse_duplicate_values data = collapse_loop data []"

text \<open>The characters that \<open>re.sub\<close> replaces by an underscore, and the file suffix.\<close>

definition unsafe_chars :: "nat list" where
  "unsafe_chars = [60, 62, 58, 34, 47, 92, 124, 63, 42]"

definition clean_name :: "ustr \<Rightarrow> ustr" where
  "clean_name attr = map (\<lambda>c. if c \<in> set unsafe_chars then 95 else c) attr"

definition xlsx_suffix :: ustr where
  "xlsx_suffix = [46, 120, 108, 115, 120]"

text \<open>
  The names of the consolidated file, "Svodnye_dannye.xlsx", and of the file of missing
  attributes, "Statistika_otsutstvuyushchikh.xlsx".
\<close>

definition summary_name :: ustr where
  "summary_name = [1057, 1074, 1086, 1076, 1085, 1099, 1077, 95, 1076, 1072, 1085, 1085, 1099,
     1077, 46, 120, 108, 115, 120]"

definition stats_name :: ustr where
  "stats_name = [1057, 1090, 1072, 1090, 1080, 1089, 1090, 1080, 1082, 1072, 95, 1086, 1090, 1089,
     1091, 1090, 1089, 1090, 1074, 1091, 1102, 1097, 1080, 1093, 46, 120, 108, 115, 120]"

text \<open>
  The loop that writes the reference files. The state is the content of the folder of
  reference files, file name to rows (attribute, value): a write to a name that is
  already there replaces that file. \<open>sorted(values)\<close> orders strings by code point, which
  is the lexicographic order on lists of code points. A \<open>to_excel\<close> that raises ends the
  function.
\<close>

fun write_references ::
  "env \<Rightarrow> (ustr \<times> ustr set) list \<Rightarrow> (ustr \<times> (ustr \<times> ustr) list) list
     \<Rightarrow> error + (ustr \<times> (ustr \<times> ustr) list) list" where
  "write_references e [] folder = Inr folder"
| "write_references e ((attr, vals) # rest) folder =
     (if vals \<noteq> {} then
        (let filename = clean_name attr @ xlsx_suffix;
             df = map (\<lambda>v. (attr, v)) (sorted_list_of_set vals)
         in
           if to_excel_ok e filename (ReferenceSheet df)
           then write_references e rest (AList.update filename df folder)
           else Inl WriteError)
      else write_references e rest folder)"

text \<open>
  What \<open>create_output_files\<close> leaves behind when no write raises: the folder of reference
  files, the consolidated file and the file of missing attributes. The README holds the
  time of the run; only whether it can be written is modelled.
\<close>

record outputs =
  out_references :: "(ustr \<times> (ustr \<times> ustr) list) list"
  out_summary :: "extracted_record list option"
  out_stats :: "missing_stat list option"

definition create_output_files ::
  "env \<Rightarrow> extracted_record list \<Rightarrow> missing_stat list \<Rightarrow> error + outputs" where
  "create_output_files e data missing =
     (case (if data \<noteq> [] then write_references e (collapse_duplicate_values data) []
            else Inr []) of
        Inl err \<Rightarrow> Inl err
      | Inr refs \<Rightarrow>
          if data \<noteq> [] \<and> \<not> to_excel_ok e summary_name (SummarySheet data) then Inl WriteError
          else if missing \<noteq> [] \<and> \<not> to_excel_ok e stats_name (StatsSheet missing)
            then Inl WriteError
          else if \<not> readme_ok e then Inl WriteError
          else Inr \<lparr>out_references = refs,
                    out_summary = (if data \<noteq> [] then Some data else None),
                    out_stats = (if missing \<noteq> [] then Some missing else None)\<rparr>)"

section \<open>The run (\<open>process_ontology_archive\<close>)\<close>

text \<open>
  The upload: no file, a file that \<open>zipfile\<close> rejects as a bad archive, an archive
  whose extraction raises something else, or an archive with the entries of its
  extraction directory. The result carries the archive of results (or none), the kind of
  message shown, and what became of the temporary workspace.
\<close>

datatype upload = NoUpload | BadZip | ExtractFails | Zip "node list"

datatype message =
  PleaseUpload | CorruptArchive | ArchiveEmpty | ProcessingError | NoDataFound | CriticalError
| Report

datatype severity = Failure | Warning | Success

text \<open>The sign that opens the message: a cross, a warning sign, or the report.\<close>

fun severity_of :: "message \<Rightarrow> severity" where
  "severity_of NoDataFound = Warning"
| "severity_of Report = Success"
| "severity_of m = Failure"

datatype workspace = NotCreated | Removed | Kept

record run_result =
  result_zip :: "outputs option"
  shown :: message
  temp_dir :: workspace

text \<open>
  Steps 3 and 4 of the run, after the test for an empty result: the output files are
  created and packed. An exception in either is caught by the outer \<open>except\<close>, which
  removes the workspace and returns the critical error.
\<close>

definition write_results :: "env \<Rightarrow> extracted_record list \<Rightarrow> missing_stat list \<Rightarrow> run_result" where
  "write_results e all_data missing_stats =
     (case create_output_files e all_data missing_stats of
        Inl err \<Rightarrow> \<lparr>result_zip = None, shown = CriticalError, temp_dir = Removed\<rparr>
      | Inr created_files \<Rightarrow>
          if zip_ok e
          then \<lparr>result_zip = Some created_files, shown = Report, temp_dir = Kept\<rparr>
          else \<lparr>result_zip = None, shown = CriticalError, temp_dir = Removed\<rparr>)"

definition process_ontology_archive :: "env \<Rightarrow> upload \<Rightarrow> run_result" where
  "process_ontology_archive e zip_file =
     (case zip_file of
        NoUpload \<Rightarrow> \<lparr>result_zip = None, shown = PleaseUpload, temp_dir = NotCreated\<rparr>
      | BadZip \<Rightarrow> \<lparr>result_zip = None, shown = CorruptArchive, temp_dir = Removed\<rparr>
      | ExtractFails \<Rightarrow> \<lparr>result_zip = None, shown = CriticalError, temp_dir = Removed\<rparr>
      | Zip extracted_items \<Rightarrow>
          if extracted_items = [] then
            \<lparr>result_zip = None, shown = ArchiveEmpty, temp_dir = Removed\<rparr>
          else
            (case process_extracted_structure e extracted_items of
               Inl err \<Rightarrow> \<lparr>result_zip = None, shown = ProcessingError, temp_dir = Removed\<rparr>
             | Inr (all_data, missing_stats) \<Rightarrow>
                 if all_data = [] \<and> missing_stats = [] then
                   \<lparr>result_zip = None, shown = NoDataFound, temp_dir = Removed\<rparr>
                 else write_results e all_data missing_stats))"

section \<open>Notions used to state the properties\<close>

text \<open>
  The exclusion rule in the words of the specification: a name is excluded when its
  lowercase form equals, contains or is contained in the lowercase form of an excluded
  label.
\<close>

definition excluded_by_label :: "ustr \<Rightarrow> bool" where
  "excluded_by_label n \<longleftrightarrow>
     (\<exists>e \<in> set excluded_attributes.
        py_lower e = py_lower n \<or> py_in (py_lower e) (py_lower n) \<or> py_in (py_lower n) (py_lower e))"

text \<open>
  Kinds of header cells: the cell that ends the span, a cell that holds the start marker,
  a cell that contributes nothing; a row that the scan takes for the header row; the
  trimmed non-empty texts of the cells that count; a list without its repetitions, each
  element at its first position; a non-empty name without surrounding whitespace.
\<close>

definition is_stop_cell :: "cell \<Rightarrow> bool" where
  "is_stop_cell c \<longleftrightarrow> cell_truthy c \<and> py_in base_unit (strip (cell_str c))"

definition is_marker_cell :: "cell \<Rightarrow> bool" where
  "is_marker_cell c \<longleftrightarrow> cell_truthy c \<and> py_in data_object (strip (cell_str c))"

definition blank_cell :: "cell \<Rightarrow> bool" where
  "blank_cell c \<longleftrightarrow> \<not> cell_truthy c \<or> strip (cell_str c) = []"

definition marker_row :: "cell list \<Rightarrow> bool" where
  "marker_row r \<longleftrightarrow> py_in data_object (join_sp (map row_value r))"

definition cell_names :: "cell list \<Rightarrow> ustr list" where
  "cell_names cs = filter (\<lambda>s. s \<noteq> []) (map (\<lambda>c. strip (cell_str c)) (filter cell_truthy cs))"

fun dedup_first :: "'a list \<Rightarrow> 'a list" where
  "dedup_first [] = []"
| "dedup_first (x # xs) = x # dedup_first (filter (\<lambda>y. y \<noteq> x) xs)"

definition well_formed_name :: "ustr \<Rightarrow> bool" where
  "well_formed_name a \<longleftrightarrow> a \<noteq> [] \<and> strip a = a"

text \<open>
  The schema as the specification's sentence on extraction describes it, written from
  that sentence and not from the code: in the first of the first three rows that has a
  cell with the start marker, the trimmed non-empty texts of the cells between that cell
  and the first cell with the end marker, without repetitions and without the excluded
  names. The sentence leaves open whether the marker cell itself belongs to the span;
  \<open>with_marker\<close> chooses.
\<close>

definition claimed_span :: "bool \<Rightarrow> cell list \<Rightarrow> cell list" where
  "claimed_span with_marker r =
     (let from_marker = dropWhile (\<lambda>c. \<not> py_in data_object (strip (row_value c))) r in
      takeWhile (\<lambda>c. \<not> py_in base_unit (strip (row_value c)))
        (if with_marker then from_marker else tl from_marker))"

definition claimed_schema :: "bool \<Rightarrow> cell list list \<Rightarrow> ustr list" where
  "claimed_schema with_marker grid =
     (case filter (\<lambda>r. \<exists>c \<in> set r. py_in data_object (strip (row_value c))) (take 3 grid) of
        [] \<Rightarrow> []
      | r # rs \<Rightarrow>
          filter (\<lambda>n. \<not> excluded_by_label n)
            (dedup_first (filter (\<lambda>s. s \<noteq> [])
               (map (\<lambda>c. strip (row_value c)) (claimed_span with_marker r)))))"

section \<open>Example data\<close>

text \<open>
  "Marka", "marka", "sht", "Naimenovanie klassa", a title, and the start marker followed
  by " (ID)".
\<close>

definition ex_marka :: ustr where
  "ex_marka = [1052, 1072, 1088, 1082, 1072]"

definition ex_sht :: ustr where
  "ex_sht = [1096, 1090]"

definition name_of_class :: ustr where
  "name_of_class = [1053, 1072, 1080, 1084, 1077, 1085, 1086, 1074, 1072, 1085, 1080, 1077, 32,
     1082, 1083, 1072, 1089, 1089, 1072]"

definition ex_title :: ustr where
  "ex_title = [84, 105, 116, 108, 101]"

definition decorated_marker :: ustr where
  "decorated_marker = data_object @ [32, 40, 73, 68, 41]"

text \<open>A template whose header row is the second row, with the marker in its second cell.\<close>

definition ex_header :: "cell list" where
  "ex_header = [Empty, Text decorated_marker, Text ex_marka, Text [32], Other False [48],
     Text ex_marka, Text name_of_class, Text base_unit, Text ex_sht]"

definition ex_grid :: "cell list list" where
  "ex_grid = [[Text ex_title], ex_header, [Text data_object, Text ex_sht]]"

text \<open>A template whose first row starts with the decorated marker cell.\<close>

definition cx_grid :: "cell list list" where
  "cx_grid = [[Text decorated_marker, Text ex_marka, Text base_unit, Text ex_sht]]"

section \<open>Notions used to state the properties of values and reference files\<close>

text \<open>
  A pair of a record comes from a kept cell of the row \<open>r\<close>: its attribute is a matched
  attribute, its value is the trimmed text of that attribute's cell in \<open>r\<close>, which is
  not NA, and the value's lowercase form is none of the skipped texts. A kept record is
  non-empty and all its pairs come from kept cells of one row.
\<close>

definition kept_cell :: "ustr list \<Rightarrow> ustr option list \<Rightarrow> ustr list \<Rightarrow> ustr \<times> ustr \<Rightarrow> bool" where
  "kept_cell cols r attrs p \<longleftrightarrow>
     fst p \<in> set attrs
     \<and> (\<exists>raw. cell_at cols r (fst p) = Some raw \<and> snd p = strip raw)
     \<and> snd p \<noteq> [] \<and> py_lower (snd p) \<notin> set skip_values"

definition kept_record ::
  "ustr list \<Rightarrow> ustr option list list \<Rightarrow> ustr list \<Rightarrow> (ustr \<times> ustr) list \<Rightarrow> bool" where
  "kept_record cols rs attrs record_values \<longleftrightarrow>
     record_values \<noteq> [] \<and> (\<exists>r \<in> set rs. \<forall>p \<in> set record_values. kept_cell cols r attrs p)"



definition stored :: "(ustr \<times> ustr set) list \<Rightarrow> ustr \<Rightarrow> ustr set" where
  "stored c a = (case map_of c a of None \<Rightarrow> {} | Some S \<Rightarrow> S)"




section \<open>Example records\<close>

text \<open>
  A records file with the columns "Marka" and "x" and three rows: ("ABV", "NaN"),
  (NA, " ") and (" null", NA). Only the first cell holds a value.
\<close>

definition ex_abv :: ustr where
  "ex_abv = [1040, 1041, 1042]"

definition ex_frame :: dataframe where
  "ex_frame =
     \<lparr>df_columns = [ex_marka, [120]],
      df_rows = [[Some ex_abv, Some [78, 97, 78]],
                 [None, Some [32]],
                 [Some [32, 110, 117, 108, 108], None]]\<rparr>"


section \<open>Example environments\<close>

text \<open>
  An environment in which \<open>to_excel\<close> succeeds exactly for a file name of at most 255
  bytes in UTF-8 and a sheet of at most 1048575 rows, every other write succeeds, and
  \<open>rglob\<close> yields the first listed directory first; and the same environment with a
  disk on which no sheet can be written.
\<close>

definition utf8_length :: "ustr \<Rightarrow> nat" where
  "utf8_length s =
     sum_list (map (\<lambda>c. if c < 128 then 1 else if c < 2048 then 2 else if c < 65536 then 3
                          else 4) s)"

fun sheet_rows :: "sheet \<Rightarrow> nat" where
  "sheet_rows (ReferenceSheet rws) = length rws"
| "sheet_rows (SummarySheet rws) = length rws"
| "sheet_rows (StatsSheet rws) = length rws"

definition posix_env :: env where
  "posix_env =
     \<lparr>rglob_first = (\<lambda>found. 0),
      to_excel_ok = (\<lambda>fname sh. utf8_length fname \<le> 255 \<and> sheet_rows sh \<le> 1048575),
      readme_ok = True,
      zip_ok = True\<rparr>"

definition full_disk_env :: env where
  "full_disk_env = posix_env\<lparr>to_excel_ok := (\<lambda>fname sh. False)\<rparr>"

section \<open>Notions used to state the properties of the traversal\<close>

text \<open>
  A file that counts as template file, or as records file, by the case-insensitive
  substring of its name; the last element of a list with a property; the later of two
  assignments to a variable.
\<close>

definition template_named :: "node \<Rightarrow> bool" where
  "template_named f \<longleftrightarrow> is_file f \<and> py_in template_key (py_lower (node_name f))"

definition records_named :: "node \<Rightarrow> bool" where
  "records_named f \<longleftrightarrow> is_file f \<and> py_in records_key (py_lower (node_name f))"

definition last_where :: "('a \<Rightarrow> bool) \<Rightarrow> 'a list \<Rightarrow> 'a option" where
  "last_where P xs = (case filter P xs of [] \<Rightarrow> None | y # ys \<Rightarrow> Some (last (y # ys)))"

definition or_else :: "'a option \<Rightarrow> 'a option \<Rightarrow> 'a option" where
  "or_else new old = (case new of None \<Rightarrow> old | Some x \<Rightarrow> Some x)"

section \<open>Example archives\<close>

text \<open>
  The class "Oborudovanie" with the template folders "P", which has a template file
  only, and "Nasos", which has both files; the records and the missing-attribute entry
  that "Nasos" yields; an archive whose first entry is a file and whose second entry is
  a directory; a folder with two files whose names contain the records key, the second
  of which also contains the template key; a template file with an upper-case name.
\<close>

definition ex_nasos :: ustr where
  "ex_nasos = [1053, 1072, 1089, 1086, 1089]"

definition ex_class :: ustr where
  "ex_class = [1054, 1073, 1086, 1088, 1091, 1076, 1086, 1074, 1072, 1085, 1080, 1077]"

definition ex_template_file :: node where
  "ex_template_file = File template_key (Some cx_grid) None"

definition ex_records_file :: node where
  "ex_records_file = File records_key None (Some ex_frame)"

definition ex_root :: node where
  "ex_root = Dir ontology_grm
     [Dir ex_class [Dir [80] [ex_template_file], Dir ex_nasos [ex_template_file, ex_records_file]]]"

definition ex_extracted :: "extracted_record list" where
  "ex_extracted = [\<lparr>rec_attribute = ex_marka, rec_template = ex_nasos, rec_class = ex_class,
                     rec_value = ex_abv\<rparr>]"

definition ex_missing :: "missing_stat list" where
  "ex_missing = [\<lparr>ms_class = ex_class, ms_template = ex_nasos, ms_attribute = data_object,
                   ms_status = absent_status\<rparr>]"

text \<open>What is written for these records and this entry: the reference file "Marka.xlsx".\<close>

definition ex_outputs :: outputs where
  "ex_outputs =
     \<lparr>out_references = [(ex_marka @ xlsx_suffix, [(ex_marka, ex_abv)])],
      out_summary = Some ex_extracted,
      out_stats = Some ex_missing\<rparr>"

definition cx_data_dir :: node where
  "cx_data_dir = Dir [68] [Dir ex_class [Dir ex_nasos [ex_template_file, ex_records_file]]]"

definition cx_items :: "node list" where
  "cx_items = [File [97] None None, cx_data_dir]"

definition cx_records_first :: node where
  "cx_records_first = File (49 # records_key) None (Some ex_frame)"

definition cx_both_keys :: node where
  "cx_both_keys = File (records_key @ 46 # template_key) (Some cx_grid) None"

definition ex_template_upper :: node where
  "ex_template_upper = File [1064, 1040, 1041, 1051, 1054, 1053, 46, 88, 76, 83, 88] (Some ex_grid) None"

section \<open>Facts about the string operations\<close>

text \<open>Rewrite rules that evaluate the string operations and the literals on concrete data.\<close>

lemmas str_eval = py_in_def sublist_code strip_def lstrip_def rstrip_def is_space_def
  py_lower_def lower_cp_def

lemmas lit_eval = data_object_def base_unit_def excluded_attributes_def ex_marka_def ex_sht_def
  name_of_class_def ex_title_def decorated_marker_def

lemmas cell_eval = is_stop_cell_def is_marker_cell_def blank_cell_def marker_row_def
  cell_names_def excluded_by_label_def

lemma py_in_iff: "py_in sub s \<longleftrightarrow> (\<exists>p t. s = p @ sub @ t)"
  by (simp add: py_in_def sublist_def)

lemma py_in_refl: "py_in s s"
  by (simp add: py_in_def)

lemma lstrip_fixed: "s = [] \<or> \<not> is_space (hd s) \<Longrightarrow> lstrip s = s"
  by (cases s) (auto simp: lstrip_def)

lemma rstrip_fixed: "s = [] \<or> \<not> is_space (last s) \<Longrightarrow> rstrip s = s"
  by (cases s rule: rev_cases) (auto simp: rstrip_def)

lemma lstrip_head: "lstrip s \<noteq> [] \<Longrightarrow> \<not> is_space (hd (lstrip s))"
  unfolding lstrip_def by (rule hd_dropWhile)

lemma rstrip_last: "rstrip s \<noteq> [] \<Longrightarrow> \<not> is_space (last (rstrip s))"
proof -
  assume ne: "rstrip s \<noteq> []"
  then have "dropWhile is_space (rev s) \<noteq> []"
    by (simp add: rstrip_def)
  then have "\<not> is_space (hd (dropWhile is_space (rev s)))"
    by (rule hd_dropWhile)
  moreover have "last (rstrip s) = hd (dropWhile is_space (rev s))"
    using ne by (simp add: rstrip_def last_rev)
  ultimately show ?thesis by simp
qed

lemma rstrip_prefix: "\<exists>ws. s = rstrip s @ ws"
proof -
  have "rstrip s @ rev (takeWhile is_space (rev s)) =
        rev (takeWhile is_space (rev s) @ dropWhile is_space (rev s))"
    by (simp only: rstrip_def rev_append)
  also have "\<dots> = s"
    by (simp only: takeWhile_dropWhile_id rev_rev_ident)
  finally have "s = rstrip s @ rev (takeWhile is_space (rev s))"
    by (rule sym)
  then show ?thesis ..
qed

lemma rstrip_head: "rstrip s \<noteq> [] \<Longrightarrow> hd (rstrip s) = hd s"
proof -
  assume ne: "rstrip s \<noteq> []"
  obtain ws where "s = rstrip s @ ws"
    using rstrip_prefix by blast
  then have "hd s = hd (rstrip s @ ws)" by simp
  with ne show ?thesis by simp
qed

lemma strip_idem: "strip (strip s) = strip s"
proof (cases "strip s = []")
  case True
  have "strip [] = []"
    by (simp add: strip_def lstrip_def rstrip_def)
  with True show ?thesis by simp
next
  case False
  then have ne: "rstrip (lstrip s) \<noteq> []"
    by (simp add: strip_def)
  then have lne: "lstrip s \<noteq> []"
    by (auto simp: rstrip_def)
  have "hd (strip s) = hd (lstrip s)"
    using ne by (simp add: strip_def rstrip_head)
  then have "\<not> is_space (hd (strip s))"
    using lne by (simp add: lstrip_head)
  then have l: "lstrip (strip s) = strip s"
    by (simp add: lstrip_fixed)
  have "\<not> is_space (last (strip s))"
    using ne by (simp add: strip_def rstrip_last)
  then have "rstrip (strip s) = strip s"
    by (simp add: rstrip_fixed)
  with l show ?thesis
    by (simp add: strip_def)
qed

section \<open>Facts about the matcher\<close>

lemma match_loop_eq:
  "match_loop attrs cols (m, u) =
     (m @ filter (\<lambda>a. a \<in> set cols) (map strip attrs),
      u @ filter (\<lambda>a. a \<notin> set cols) (map strip attrs))"
  by (induction attrs arbitrary: m u) (simp_all add: Let_def)

lemma match_attributes_eq:
  "match_attributes attrs cols =
     (filter (\<lambda>a. a \<in> set cols) (map strip attrs),
      filter (\<lambda>a. a \<notin> set cols) (map strip attrs))"
  by (simp add: match_attributes_def match_loop_eq)

section \<open>Facts about schema extraction\<close>

lemma data_object_name: "well_formed_name data_object"
  by (simp add: well_formed_name_def data_object_def strip_def lstrip_def rstrip_def is_space_def)

lemma strip_name: "strip s \<noteq> [] \<Longrightarrow> well_formed_name (strip s)"
  by (simp add: well_formed_name_def strip_idem)

lemma scan_cells_names:
  "\<forall>a \<in> set acc. well_formed_name a \<Longrightarrow> \<forall>a \<in> set (fst (scan_cells cs acc)). well_formed_name a"
proof (induction cs arbitrary: acc)
  case Nil
  then show ?case by simp
next
  case (Cons c cs)
  have a1: "\<forall>a \<in> set (acc @ [data_object]). well_formed_name a"
    using Cons.prems data_object_name by simp
  have a2: "\<forall>a \<in> set (acc @ [strip (cell_str c)]). well_formed_name a"
    if "strip (cell_str c) \<noteq> []"
    using Cons.prems strip_name [OF that] by simp
  show ?case
    using Cons.IH [OF a1] Cons.IH [OF a2] Cons.IH [OF Cons.prems] Cons.prems
    by (simp add: Let_def)
qed

lemma scan_rows_names:
  "\<forall>a \<in> set (attributes st). well_formed_name a \<Longrightarrow>
   \<forall>a \<in> set (attributes (scan_rows rs st)). well_formed_name a"
proof (induction rs arbitrary: st)
  case Nil
  then show ?case by simp
next
  case (Cons r rs)
  show ?case
  proof (cases "\<not> stop_attributes st \<and> py_in data_object (join_sp (map row_value r)) \<and> \<not> found_start st")
    case True
    obtain attrs stop where sc: "scan_cells r (attributes st) = (attrs, stop)"
      by (cases "scan_cells r (attributes st)")
    have "\<forall>a \<in> set attrs. well_formed_name a"
      using scan_cells_names [OF Cons.prems, of r] sc by simp
    then have "\<forall>a \<in> set (attributes \<lparr>attributes = attrs, found_start = True, stop_attributes = stop\<rparr>). well_formed_name a"
      by simp
    from Cons.IH [OF this] True sc show ?thesis
      by (simp add: Let_def)
  next
    case False
    with Cons.IH [OF Cons.prems] Cons.prems show ?thesis
      by (auto simp: Let_def)
  qed
qed

lemma collect_attributes_names: "\<forall>a \<in> set (collect_attributes wb). well_formed_name a"
proof (cases wb)
  case None
  then show ?thesis by simp
next
  case (Some grid)
  have "\<forall>a \<in> set (attributes \<lparr>attributes = [], found_start = False, stop_attributes = False\<rparr>). well_formed_name a"
    by simp
  from scan_rows_names [OF this] Some show ?thesis by simp
qed

lemma is_excluded_iff:
  "is_excluded l es \<longleftrightarrow>
     (\<exists>e \<in> set es. py_lower e = l \<or> py_in (py_lower e) l \<or> py_in l (py_lower e))"
  by (induction es) (auto simp: Let_def)

lemma filter_attributes_names:
  "\<forall>a \<in> set xs. well_formed_name a \<Longrightarrow>
   filter_attributes xs = filter (\<lambda>n. \<not> excluded_by_label n) xs"
  by (induction xs) (auto simp: well_formed_name_def is_excluded_iff excluded_by_label_def)

lemma extract_eq_filter: "extract_attributes_from_template wb = filter (\<lambda>n. \<not> excluded_by_label n) (collect_attributes wb)"
  unfolding extract_attributes_from_template_def
  by (rule filter_attributes_names) (rule collect_attributes_names)

lemma excl_nc: "excluded_by_label name_of_class"
  by (simp add: excluded_by_label_def excluded_attributes_def name_of_class_def py_lower_def lower_cp_def py_in_def sublist_code)

lemma not_excl_do: "\<not> excluded_by_label data_object"
  by (simp add: excluded_by_label_def excluded_attributes_def data_object_def py_lower_def lower_cp_def py_in_def sublist_code)


lemma strip_sublist: "\<exists>p t. s = p @ strip s @ t"
proof -
  have "s = takeWhile is_space s @ lstrip s"
    by (simp add: lstrip_def)
  moreover obtain ws where "lstrip s = rstrip (lstrip s) @ ws"
    using rstrip_prefix by blast
  ultimately have "s = takeWhile is_space s @ strip s @ ws"
    by (simp add: strip_def)
  then show ?thesis by blast
qed

lemma py_in_strip: "py_in x (strip s) \<Longrightarrow> py_in x s"
proof -
  assume "py_in x (strip s)"
  then obtain p t where a: "strip s = p @ x @ t"
    by (auto simp: py_in_iff)
  obtain p' t' where "s = p' @ strip s @ t'"
    using strip_sublist by blast
  with a have "s = (p' @ p) @ x @ (t @ t')"
    by simp
  then show ?thesis
    unfolding py_in_iff by blast
qed

lemma py_in_join: "x \<in> set xs \<Longrightarrow> py_in p x \<Longrightarrow> py_in p (join_sp xs)"
proof (induction xs rule: join_sp.induct)
  case 1
  then show ?case by simp
next
  case (2 q)
  then show ?case by simp
next
  case (3 q r rs)
  show ?case
  proof (cases "x = q")
    case True
    with "3.prems" obtain a b where "q = a @ p @ b"
      by (auto simp: py_in_iff)
    then have "join_sp (q # r # rs) = a @ p @ (b @ [32] @ join_sp (r # rs))"
      by simp
    then show ?thesis
      unfolding py_in_iff by blast
  next
    case False
    with "3.prems" have "x \<in> set (r # rs)" by simp
    from "3.IH" [OF this "3.prems"(2)] obtain a b where "join_sp (r # rs) = a @ p @ b"
      by (auto simp: py_in_iff)
    then have "join_sp (q # r # rs) = (q @ [32] @ a) @ p @ b"
      by simp
    then show ?thesis
      unfolding py_in_iff by blast
  qed
qed

lemma truthy_row_value: "cell_truthy c \<Longrightarrow> row_value c = cell_str c"
  by (cases c) simp_all

lemma marker_cell_row: "c \<in> set r \<Longrightarrow> is_marker_cell c \<Longrightarrow> marker_row r"
proof -
  assume mem: "c \<in> set r" and mk: "is_marker_cell c"
  from mk have "py_in data_object (row_value c)"
    by (simp add: is_marker_cell_def truthy_row_value py_in_strip)
  moreover from mem have "row_value c \<in> set (map row_value r)"
    by simp
  ultimately show ?thesis
    unfolding marker_row_def by (rule py_in_join [rotated])
qed

lemma scan_rows_found: "found_start st \<Longrightarrow> scan_rows rs st = st"
  by (induction rs arbitrary: st) (simp_all add: Let_def)

lemma scan_rows_above:
  "\<forall>r' \<in> set skipped. \<not> marker_row r' \<Longrightarrow> scan_rows (skipped @ rs) st = scan_rows rs st"
proof (induction skipped arbitrary: st)
  case Nil
  then show ?case by simp
next
  case (Cons a skipped)
  then show ?case
    by (cases rs) (simp_all add: Let_def marker_row_def)
qed

lemma scan_rows_marker_row:
  assumes "marker_row r"
  shows "attributes (scan_rows (r # below)
             \<lparr>attributes = [], found_start = False, stop_attributes = False\<rparr>)
           = fst (scan_cells r [])"
proof -
  obtain attrs stop where sc: "scan_cells r [] = (attrs, stop)"
    by (cases "scan_cells r []")
  have "scan_rows (r # below) \<lparr>attributes = [], found_start = False, stop_attributes = False\<rparr>
          = scan_rows below \<lparr>attributes = attrs, found_start = True, stop_attributes = stop\<rparr>"
    using assms sc by (simp add: Let_def marker_row_def)
  also have "\<dots> = \<lparr>attributes = attrs, found_start = True, stop_attributes = stop\<rparr>"
    by (rule scan_rows_found) simp
  finally show ?thesis
    using sc by simp
qed

lemma scan_cells_blanks:
  "\<forall>c \<in> set blanks. blank_cell c \<Longrightarrow> scan_cells (blanks @ cs) acc = scan_cells cs acc"
proof (induction blanks)
  case Nil
  then show ?case by simp
next
  case (Cons b blanks)
  have "\<not> py_in base_unit []"
    by (simp add: py_in_def base_unit_def)
  with Cons show ?case
    by (auto simp: blank_cell_def Let_def)
qed

lemma marker_text_nonempty: "py_in data_object s \<Longrightarrow> s \<noteq> []"
  by (auto simp: py_in_def data_object_def)

lemma scan_cells_marker:
  "is_marker_cell m \<Longrightarrow> \<not> is_stop_cell m \<Longrightarrow>
   scan_cells (m # rest) acc = scan_cells rest (acc @ [data_object])"
  by (auto simp: is_marker_cell_def is_stop_cell_def Let_def dest: marker_text_nonempty)

lemma filter_fresh:
  "filter (\<lambda>y. y \<noteq> s \<and> y \<notin> set acc) xs = filter (\<lambda>y. y \<notin> set acc \<and> y \<noteq> s) xs"
  by (rule filter_cong) auto

lemma scan_cells_span:
  "\<forall>c \<in> set (takeWhile (\<lambda>c. \<not> is_stop_cell c) cs). \<not> is_marker_cell c \<Longrightarrow>
   fst (scan_cells cs acc) =
     acc @ dedup_first (filter (\<lambda>s. s \<notin> set acc)
                          (cell_names (takeWhile (\<lambda>c. \<not> is_stop_cell c) cs)))"
proof (induction cs arbitrary: acc)
  case Nil
  then show ?case by (simp add: cell_names_def)
next
  case (Cons c cs)
  show ?case
  proof (cases "is_stop_cell c")
    case True
    then show ?thesis
      by (simp add: is_stop_cell_def cell_names_def Let_def)
  next
    case False
    with Cons.prems have nomark: "\<not> is_marker_cell c"
      and rest: "\<forall>c \<in> set (takeWhile (\<lambda>c. \<not> is_stop_cell c) cs). \<not> is_marker_cell c"
      by simp_all
    note IH = Cons.IH [OF rest]
    show ?thesis
    proof (cases "cell_truthy c \<and> strip (cell_str c) \<noteq> []")
      case skip: False
      then have "scan_cells (c # cs) acc = scan_cells cs acc"
        using False by (auto simp: is_stop_cell_def Let_def)
      moreover have "cell_names (takeWhile (\<lambda>c. \<not> is_stop_cell c) (c # cs))
                       = cell_names (takeWhile (\<lambda>c. \<not> is_stop_cell c) cs)"
        using False skip by (auto simp: cell_names_def)
      ultimately show ?thesis
        using IH by simp
    next
      case keep: True
      let ?s = "strip (cell_str c)"
      have names: "cell_names (takeWhile (\<lambda>c. \<not> is_stop_cell c) (c # cs))
                     = ?s # cell_names (takeWhile (\<lambda>c. \<not> is_stop_cell c) cs)"
        using False keep by (simp add: cell_names_def)
      show ?thesis
      proof (cases "?s \<in> set acc")
        case True
        then have "scan_cells (c # cs) acc = scan_cells cs acc"
          using False keep nomark by (simp add: is_stop_cell_def is_marker_cell_def Let_def)
        then show ?thesis
          using IH True names by simp
      next
        case fresh: False
        then have "scan_cells (c # cs) acc = scan_cells cs (acc @ [?s])"
          using False keep nomark by (simp add: is_stop_cell_def is_marker_cell_def Let_def)
        then show ?thesis
          using IH [of "acc @ [?s]"] fresh names by (simp add: filter_fresh)
      qed
    qed
  qed
qed

lemma cell_names_no_marker:
  "\<forall>c \<in> set cs. \<not> is_marker_cell c \<Longrightarrow> data_object \<notin> set (cell_names cs)"
proof
  assume nm: "\<forall>c \<in> set cs. \<not> is_marker_cell c" and "data_object \<in> set (cell_names cs)"
  then obtain c where "c \<in> set cs" "cell_truthy c" "strip (cell_str c) = data_object"
    by (auto simp: cell_names_def)
  with nm show False
    by (auto simp: is_marker_cell_def py_in_refl)
qed

section \<open>Facts about value extraction\<close>

lemma set_update_cases: "p \<in> set (AList.update k v al) \<Longrightarrow> p = (k, v) \<or> p \<in> set al"
  by (induction al) (auto split: if_splits)

lemma record_of_row_kept:
  "record_of_row cols r attrs rv = Some rec_values \<Longrightarrow>
   set attrs \<subseteq> set all_attrs \<Longrightarrow>
   \<forall>p \<in> set rv. kept_cell cols r all_attrs p \<Longrightarrow>
   \<forall>p \<in> set rec_values. kept_cell cols r all_attrs p"
proof (induction attrs arbitrary: rv)
  case Nil
  then show ?case by simp
next
  case (Cons attr attrs)
  have sub: "set attrs \<subseteq> set all_attrs" and mem: "attr \<in> set all_attrs"
    using Cons.prems(2) by simp_all
  show ?case
  proof (cases "attr \<in> set cols \<and> \<not> 1 < count_list cols attr")
    case False
    with Cons.prems(1) have "record_of_row cols r attrs rv = Some rec_values"
      by (auto split: if_splits)
    from Cons.IH [OF this sub Cons.prems(3)] show ?thesis .
  next
    case True
    show ?thesis
    proof (cases "cell_at cols r attr")
      case None
      with True Cons.prems(1) have "record_of_row cols r attrs rv = Some rec_values"
        by simp
      from Cons.IH [OF this sub Cons.prems(3)] show ?thesis .
    next
      case (Some raw)
      show ?thesis
      proof (cases "strip raw \<noteq> [] \<and> py_lower (strip raw) \<notin> set skip_values")
        case False
        with True Some Cons.prems(1) have "record_of_row cols r attrs rv = Some rec_values"
          by (auto simp: Let_def)
        from Cons.IH [OF this sub Cons.prems(3)] show ?thesis .
      next
        case keep: True
        with True Some Cons.prems(1)
        have run: "record_of_row cols r attrs (AList.update attr (strip raw) rv) = Some rec_values"
          by (simp add: Let_def)
        have "kept_cell cols r all_attrs (attr, strip raw)"
          using mem Some keep by (simp add: kept_cell_def)
        with Cons.prems(3)
        have "\<forall>p \<in> set (AList.update attr (strip raw) rv). kept_cell cols r all_attrs p"
          by (auto dest: set_update_cases)
        from Cons.IH [OF run sub this] show ?thesis .
      qed
    qed
  qed
qed

lemma values_loop_kept:
  "\<forall>rv \<in> set vals. kept_record cols all_rows attrs rv \<Longrightarrow>
   set rs \<subseteq> set all_rows \<Longrightarrow>
   \<forall>rv \<in> set (values_loop cols rs attrs vals). kept_record cols all_rows attrs rv"
proof (induction rs arbitrary: vals)
  case Nil
  then show ?case by simp
next
  case (Cons r rs)
  have sub: "set rs \<subseteq> set all_rows" and mem: "r \<in> set all_rows"
    using Cons.prems(2) by simp_all
  show ?case
  proof (cases "record_of_row cols r attrs []")
    case None
    with Cons.prems(1) show ?thesis by simp
  next
    case (Some rec_values)
    have "\<forall>p \<in> set rec_values. kept_cell cols r attrs p"
      by (rule record_of_row_kept [OF Some]) simp_all
    with mem have "rec_values \<noteq> [] \<Longrightarrow> kept_record cols all_rows attrs rec_values"
      by (auto simp: kept_record_def)
    with Cons.prems(1)
    have "\<forall>rv \<in> set (if rec_values \<noteq> [] then vals @ [rec_values] else vals).
            kept_record cols all_rows attrs rv"
      by auto
    from Cons.IH [OF this sub] Some show ?thesis
      by simp
  qed
qed

section \<open>Facts about aggregation\<close>




lemma stored_absent: "a \<notin> fst ` set c \<Longrightarrow> stored c a = {}"
  by (simp add: stored_def map_of_eq_None_iff [THEN iffD2])










section \<open>Facts about the traversal and the run\<close>

lemmas tree_eval = template_named_def records_named_def template_key_def records_key_def
  ontology_grm_def ex_nasos_def ex_class_def ex_template_file_def ex_records_file_def
  ex_root_def

lemma last_where_Cons:
  "last_where P (x # xs) = or_else (last_where P xs) (if P x then Some x else None)"
  by (auto simp: last_where_def or_else_def split: list.splits)

lemma find_files_Cons:
  "find_files (f # fs) (t, r) =
     (if template_named f then find_files fs (Some f, r)
      else if records_named f then find_files fs (t, Some f)
      else find_files fs (t, r))"
  by (simp add: template_named_def records_named_def Let_def)

lemma find_files_eq:
  "find_files fs (t, r) =
     (or_else (last_where template_named fs) t,
      or_else (last_where (\<lambda>f. records_named f \<and> \<not> template_named f) fs) r)"
proof (induction fs arbitrary: t r)
  case Nil
  then show ?case by (simp add: last_where_def or_else_def)
next
  case (Cons f fs)
  show ?case
    unfolding find_files_Cons last_where_Cons Cons.IH
    by (cases "template_named f"; cases "records_named f")
      (simp_all add: or_else_def split: option.splits)
qed

lemma find_files_start:
  "find_files fs (None, None) =
     (last_where template_named fs, last_where (\<lambda>f. records_named f \<and> \<not> template_named f) fs)"
  by (simp add: find_files_eq or_else_def split: option.splits)

lemma last_where_None: "last_where P xs = None \<longleftrightarrow> \<not> (\<exists>x \<in> set xs. P x)"
proof (cases "filter P xs")
  case Nil
  then show ?thesis
    by (simp add: last_where_def filter_empty_conv)
next
  case (Cons y ys)
  then have "y \<in> set (filter P xs)"
    by simp
  then have "\<exists>x \<in> set xs. P x"
    by auto
  with Cons show ?thesis
    by (simp add: last_where_def)
qed

lemma skip_without_pair:
  assumes "\<not> (\<exists>f \<in> set files. template_named f) \<or> \<not> (\<exists>f \<in> set files. records_named f)"
  shows "process_template_dir class_name template_name files acc = acc"
proof -
  from assms have "last_where template_named files = None
      \<or> last_where (\<lambda>f. records_named f \<and> \<not> template_named f) files = None"
    by (auto simp: last_where_None)
  then show ?thesis
    by (auto simp: process_template_dir_def find_files_start split: option.splits)
qed

lemma process_dirs_append:
  "process_dirs (xs @ ys) acc = process_dirs ys (process_dirs xs acc)"
proof (induction xs arbitrary: acc)
  case Nil
  then show ?case by simp
next
  case (Cons x xs)
  obtain c t fs where x: "x = (c, t, fs)"
    by (cases x)
  show ?case
    unfolding x by (simp add: Cons.IH)
qed

lemma ex_schema: "extract_attributes_from_template (Some cx_grid) = [data_object, ex_marka]"
  by (simp add: str_eval lit_eval cell_eval cx_grid_def extract_attributes_from_template_def Let_def)

lemma ex_values:
  "extract_values_from_records (Some ex_frame) [ex_marka] = [[(ex_marka, ex_abv)]]"
  by (simp add: ex_frame_def ex_marka_def ex_abv_def cell_at_def skip_values_def str_eval Let_def)

lemma ex_match:
  "match_attributes [data_object, ex_marka] (extract_columns_from_records (Some ex_frame))
     = ([ex_marka], [data_object])"
  by (simp add: match_attributes_eq ex_frame_def lit_eval str_eval)

lemma ex_pair:
  "process_pair ex_class ex_nasos ex_template_file ex_records_file ([], [])
     = (ex_extracted, ex_missing)"
  unfolding process_pair_def
  by (simp add: ex_template_file_def ex_records_file_def ex_schema ex_match ex_values
      ex_extracted_def ex_missing_def del: extract_columns_from_records.simps extract_values_from_records.simps)

lemma ex_find: "find_files [ex_template_file, ex_records_file] (None, None)
   = (Some ex_template_file, Some ex_records_file)"
  by (simp add: tree_eval str_eval)

lemma ex_dir:
  "process_template_dir ex_class ex_nasos [ex_template_file, ex_records_file] ([], [])
     = (ex_extracted, ex_missing)"
  by (simp add: process_template_dir_def ex_find ex_pair del: find_files.simps)

lemma ex_root_dirs: "filter is_dir (rglob ontology_grm (Dir [] [ex_root])) = [ex_root]"
  by (simp add: tree_eval)

lemma ex_root_found: "find_root e [ex_root] = Some ex_root"
  unfolding find_root_def ex_root_dirs by simp

lemma ex_all_dirs:
  "all_dirs ex_root = [] @ (ex_class, [80], [ex_template_file])
      # [(ex_class, ex_nasos, [ex_template_file, ex_records_file])]"
  by (simp add: all_dirs_def ex_root_def)

lemma ex_run: "process_extracted_structure e [ex_root] = Inr (ex_extracted, ex_missing)"
proof -
  have skip: "process_template_dir ex_class [80] [ex_template_file] ([], []) = ([], [])"
    by (rule skip_without_pair) (simp add: tree_eval str_eval)
  have "process_dirs (all_dirs ex_root) ([], []) = (ex_extracted, ex_missing)"
    unfolding ex_all_dirs by (simp add: skip ex_dir)
  then show ?thesis
    by (simp add: process_extracted_structure_def ex_root_found)
qed

section \<open>Facts about writing the results\<close>



















lemma write_results_shown: "shown (write_results e d m) \<noteq> NoDataFound"
  by (simp add: write_results_def split: sum.splits)

lemma write_results_created:
  "create_output_files e d m = Inr created \<Longrightarrow> zip_ok e \<Longrightarrow>
   write_results e d m = \<lparr>result_zip = Some created, shown = Report, temp_dir = Kept\<rparr>"
  by (simp add: write_results_def)

lemma write_results_failed:
  "(\<exists>err. create_output_files e d m = Inl err) \<or> \<not> zip_ok e \<Longrightarrow>
   write_results e d m = \<lparr>result_zip = None, shown = CriticalError, temp_dir = Removed\<rparr>"
  by (auto simp: write_results_def split: sum.splits)

lemma run_with_results:
  assumes "items \<noteq> []" and "process_extracted_structure e items = Inr (d, m)"
    and "d \<noteq> [] \<or> m \<noteq> []"
  shows "process_ontology_archive e (Zip items) = write_results e d m"
  using assms by (auto simp: process_ontology_archive_def)

lemma run_without_results:
  "shown (process_ontology_archive e u) = NoDataFound \<longleftrightarrow>
     (\<exists>items. u = Zip items \<and> items \<noteq> [] \<and> process_extracted_structure e items = Inr ([], []))"
  by (cases u)
    (auto simp: process_ontology_archive_def write_results_shown split: sum.splits prod.splits)

lemma run_warning:
  "shown (process_ontology_archive e u) = NoDataFound \<Longrightarrow>
   severity_of (shown (process_ontology_archive e u)) = Warning
   \<and> result_zip (process_ontology_archive e u) = None
   \<and> temp_dir (process_ontology_archive e u) = Removed"
  by (cases u)
    (auto simp: process_ontology_archive_def write_results_shown
      split: sum.splits prod.splits if_splits)

lemma ex_created: "create_output_files posix_env ex_extracted ex_missing = Inr ex_outputs"
  by (simp add: create_output_files_def collapse_duplicate_values_def Let_def ex_extracted_def
      ex_missing_def ex_outputs_def clean_name_def unsafe_chars_def xlsx_suffix_def posix_env_def
      utf8_length_def summary_name_def stats_name_def ex_marka_def ex_abv_def)

lemma ex_not_created: "create_output_files full_disk_env ex_extracted ex_missing = Inl WriteError"
  by (simp add: create_output_files_def collapse_duplicate_values_def Let_def ex_extracted_def
      full_disk_env_def posix_env_def ex_abv_def)

section \<open>The matcher partitions the trimmed schema\<close>

text \<open>
  Claim C2 as stated fails: the matcher stores the stripped attribute, so a schema entry
  with surrounding whitespace is in neither output. The schema \<open>[" a"]\<close> against the
  column \<open>"a"\<close> gives \<open>matched = ["a"]\<close>, and \<open>" a"\<close> is lost.
\<close>

theorem match_partition_counterexample:
  "mset (fst (match_attributes [[32, 97]] [[97]]) @ snd (match_attributes [[32, 97]] [[97]]))
     \<noteq> mset [[32, 97]]
   \<and> [32, 97] \<notin> set (fst (match_attributes [[32, 97]] [[97]])
                      @ snd (match_attributes [[32, 97]] [[97]]))"
  by (simp add: match_attributes_eq strip_def lstrip_def rstrip_def is_space_def)

text \<open>
  Claim C2, amended: for every schema list and every column list, \<open>matched\<close> and
  \<open>missing\<close> partition the schema with each entry trimmed: \<open>matched\<close> is the trimmed
  entries that are columns, \<open>missing\<close> the trimmed entries that are not, each in schema
  order and with the schema's duplicates; together they hold the same elements as the
  trimmed schema; they have no element in common. When every schema entry is already
  trimmed, as in every schema that extraction produces, they hold the same elements as
  the schema itself.
\<close>

theorem match_partition:
  "fst (match_attributes schema cols) = filter (\<lambda>a. a \<in> set cols) (map strip schema)
   \<and> snd (match_attributes schema cols) = filter (\<lambda>a. a \<notin> set cols) (map strip schema)
   \<and> mset (fst (match_attributes schema cols) @ snd (match_attributes schema cols))
       = mset (map strip schema)
   \<and> set (fst (match_attributes schema cols)) \<inter> set (snd (match_attributes schema cols)) = {}
   \<and> ((\<forall>a \<in> set schema. strip a = a) \<longrightarrow>
        mset (fst (match_attributes schema cols) @ snd (match_attributes schema cols))
          = mset schema)"
proof -
  have parts: "match_attributes schema cols =
      (filter (\<lambda>a. a \<in> set cols) (map strip schema),
       filter (\<lambda>a. a \<notin> set cols) (map strip schema))"
    by (rule match_attributes_eq)
  have whole: "mset (filter (\<lambda>a. a \<in> set cols) (map strip schema)
                 @ filter (\<lambda>a. a \<notin> set cols) (map strip schema)) = mset (map strip schema)"
    by simp
  have disj: "set (filter (\<lambda>a. a \<in> set cols) (map strip schema))
                \<inter> set (filter (\<lambda>a. a \<notin> set cols) (map strip schema)) = {}"
    by auto
  have same: "map strip schema = schema" if "\<forall>a \<in> set schema. strip a = a"
    using that by (induction schema) simp_all
  show ?thesis
    unfolding parts fst_conv snd_conv
    using whole disj same by simp
qed

theorem match_partition_witness:
  "strip [97] = [97] \<and> strip [98] = [98]
   \<and> fst (match_attributes [[97], [98], [97]] [[97]]) = [[97], [97]]
   \<and> snd (match_attributes [[97], [98], [97]] [[97]]) = [[98]]
   \<and> mset (fst (match_attributes [[97], [98], [97]] [[97]])
            @ snd (match_attributes [[97], [98], [97]] [[97]])) = mset [[97], [98], [97]]"
proof -
  have trimmed: "\<forall>a \<in> set [[97], [98], [97::nat]]. strip a = a"
    by (simp add: strip_def lstrip_def rstrip_def is_space_def)
  from trimmed match_partition [of "[[97], [98], [97]]" "[[97]]"]
  show ?thesis
    by (simp add: strip_def lstrip_def rstrip_def is_space_def)
qed

section \<open>Matching is equality after trimming both sides\<close>

text \<open>
  Claim C3: an attribute is matched exactly when its trimmed text equals the trimmed text
  of some column header of the records file, and is placed in \<open>missing\<close> exactly when it
  equals none; no other normalisation takes place, so an attribute that differs from
  every header, be it only by letter case, is in \<open>missing\<close>.
\<close>

theorem exact_match_after_trim:
  assumes "a \<in> set schema"
  shows "((\<exists>h \<in> set (df_columns df). strip a = strip h) \<longrightarrow>
            strip a \<in> set (fst (match_attributes schema (extract_columns_from_records (Some df))))
          \<and> strip a \<notin> set (snd (match_attributes schema (extract_columns_from_records (Some df)))))
       \<and> ((\<forall>h \<in> set (df_columns df). strip a \<noteq> strip h) \<longrightarrow>
            strip a \<in> set (snd (match_attributes schema (extract_columns_from_records (Some df))))
          \<and> strip a \<notin> set (fst (match_attributes schema (extract_columns_from_records (Some df)))))"
proof -
  have cols: "strip a \<in> set (extract_columns_from_records (Some df))
                \<longleftrightarrow> (\<exists>h \<in> set (df_columns df). strip a = strip h)"
    by auto
  have mem: "strip a \<in> set (map strip schema)"
    using assms by simp
  show ?thesis
    unfolding match_attributes_eq fst_conv snd_conv set_filter
    using cols mem by blast
qed

text \<open>
  The attributes "Marka " (trailing space) and "marka" against the header " Marka"
  (leading space): the first is matched, the second differs by case only and is missing.
\<close>

theorem exact_match_after_trim_witness:
  "[1052, 1072, 1088, 1082, 1072, 32::nat]
       \<in> set [[1052, 1072, 1088, 1082, 1072, 32], [1084, 1072, 1088, 1082, 1072]]
   \<and> (\<exists>h \<in> set (df_columns \<lparr>df_columns = [[32, 1052, 1072, 1088, 1082, 1072]], df_rows = []\<rparr>).
         strip [1052, 1072, 1088, 1082, 1072, 32] = strip h)
   \<and> strip [1052, 1072, 1088, 1082, 1072, 32]
       \<in> set (fst (match_attributes [[1052, 1072, 1088, 1082, 1072, 32], [1084, 1072, 1088, 1082, 1072]]
                 (extract_columns_from_records
                    (Some \<lparr>df_columns = [[32, 1052, 1072, 1088, 1082, 1072]], df_rows = []\<rparr>))))
   \<and> py_lower [1084, 1072, 1088, 1082, 1072] = py_lower (strip [32, 1052, 1072, 1088, 1082, 1072])
   \<and> strip [1084, 1072, 1088, 1082, 1072]
       \<in> set (snd (match_attributes [[1052, 1072, 1088, 1082, 1072, 32], [1084, 1072, 1088, 1082, 1072]]
                 (extract_columns_from_records
                    (Some \<lparr>df_columns = [[32, 1052, 1072, 1088, 1082, 1072]], df_rows = []\<rparr>))))"
proof -
  let ?schema = "[[1052, 1072, 1088, 1082, 1072, 32], [1084, 1072, 1088, 1082, 1072::nat]]"
  let ?df = "\<lparr>df_columns = [[32, 1052, 1072, 1088, 1082, 1072::nat]], df_rows = []\<rparr>"
  have m1: "[1052, 1072, 1088, 1082, 1072, 32] \<in> set ?schema"
    by simp
  have m2: "[1084, 1072, 1088, 1082, 1072] \<in> set ?schema"
    by simp
  have h1: "\<exists>h \<in> set (df_columns ?df). strip [1052, 1072, 1088, 1082, 1072, 32] = strip h"
    by (simp add: strip_def lstrip_def rstrip_def is_space_def)
  have h2: "\<forall>h \<in> set (df_columns ?df). strip [1084, 1072, 1088, 1082, 1072] \<noteq> strip h"
    by (simp add: strip_def lstrip_def rstrip_def is_space_def)
  have low: "py_lower [1084, 1072, 1088, 1082, 1072]
               = py_lower (strip [32, 1052, 1072, 1088, 1082, 1072])"
    by (simp add: py_lower_def lower_cp_def strip_def lstrip_def rstrip_def is_space_def)
  from exact_match_after_trim [OF m1, of ?df] h1
  have r1: "strip [1052, 1072, 1088, 1082, 1072, 32]
              \<in> set (fst (match_attributes ?schema (extract_columns_from_records (Some ?df))))"
    by blast
  from exact_match_after_trim [OF m2, of ?df] h2
  have r2: "strip [1084, 1072, 1088, 1082, 1072]
              \<in> set (snd (match_attributes ?schema (extract_columns_from_records (Some ?df))))"
    by blast
  from m1 h1 r1 low r2 show ?thesis
    by blast
qed

section \<open>What schema extraction returns\<close>

text \<open>
  Claim C1 as stated fails. The cell that holds the start marker is not left out, and it
  is not returned as its trimmed text: the code appends the literal marker for it. For
  the row \<open>["Ob'ekt dannykh (ID)", "Marka", "Bazovaya edinitsa izmereniya", "sht"]\<close> the
  code returns \<open>["Ob'ekt dannykh", "Marka"]\<close>; the claimed schema is \<open>["Marka"]\<close> when
  the marker cell is outside the span and \<open>["Ob'ekt dannykh (ID)", "Marka"]\<close> when it is
  inside.
\<close>

theorem schema_extraction_counterexample:
  "extract_attributes_from_template (Some cx_grid) = [data_object, ex_marka]
   \<and> claimed_schema False cx_grid = [ex_marka]
   \<and> claimed_schema True cx_grid = [decorated_marker, ex_marka]
   \<and> extract_attributes_from_template (Some cx_grid) \<noteq> claimed_schema False cx_grid
   \<and> extract_attributes_from_template (Some cx_grid) \<noteq> claimed_schema True cx_grid"
proof -
  have code: "extract_attributes_from_template (Some cx_grid) = [data_object, ex_marka]"
    by (simp add: str_eval lit_eval cell_eval cx_grid_def extract_attributes_from_template_def
        Let_def)
  have without: "claimed_schema False cx_grid = [ex_marka]"
    by (simp add: str_eval lit_eval cell_eval cx_grid_def claimed_schema_def claimed_span_def
        Let_def)
  have within: "claimed_schema True cx_grid = [decorated_marker, ex_marka]"
    by (simp add: str_eval lit_eval cell_eval cx_grid_def claimed_schema_def claimed_span_def
        Let_def)
  have "[data_object, ex_marka] \<noteq> [ex_marka]"
    by simp
  moreover have "[data_object, ex_marka] \<noteq> [decorated_marker, ex_marka]"
    by (simp add: lit_eval)
  ultimately show ?thesis
    using code without within by simp
qed

text \<open>
  Claim C1, amended: take a template grid and the first of its first three rows whose
  cell texts, joined by spaces, contain the start marker. When that row has only blank
  cells before its first marker cell, that cell does not itself contain the end marker,
  and no further marker cell comes before the end marker, extraction returns the literal start marker followed by the non-empty, trimmed texts
  of the truthy cells between the marker cell and the first cell that contains the end
  marker (exclusive), in order, each text once at its first position, without the names
  that the exclusion filter drops. Rows before and after that row contribute nothing.
\<close>

theorem schema_extraction:
  assumes rows3: "take 3 grid = rows_before @ r # below"
    and rows_before: "\<forall>r' \<in> set rows_before. \<not> marker_row r'"
    and r: "r = blanks @ m # rest"
    and blanks: "\<forall>c \<in> set blanks. blank_cell c"
    and m: "is_marker_cell m" "\<not> is_stop_cell m"
    and single: "\<forall>c \<in> set (takeWhile (\<lambda>c. \<not> is_stop_cell c) rest). \<not> is_marker_cell c"
  shows "extract_attributes_from_template (Some grid) =
           data_object #
           filter (\<lambda>n. \<not> excluded_by_label n)
             (dedup_first (cell_names (takeWhile (\<lambda>c. \<not> is_stop_cell c) rest)))"
proof -
  let ?names = "cell_names (takeWhile (\<lambda>c. \<not> is_stop_cell c) rest)"
  have "marker_row r"
    using r m(1) by (auto intro: marker_cell_row)
  note mr = this
  have "collect_attributes (Some grid) =
          attributes (scan_rows (rows_before @ r # below)
            \<lparr>attributes = [], found_start = False, stop_attributes = False\<rparr>)"
    using rows3 by simp
  also have "\<dots> = attributes (scan_rows (r # below)
            \<lparr>attributes = [], found_start = False, stop_attributes = False\<rparr>)"
    using rows_before by (simp only: scan_rows_above)
  also have "\<dots> = fst (scan_cells r [])"
    using mr by (rule scan_rows_marker_row)
  also have "\<dots> = fst (scan_cells rest [data_object])"
    using r blanks m by (simp add: scan_cells_blanks scan_cells_marker del: scan_cells.simps)
  also have "\<dots> = [data_object] @ dedup_first (filter (\<lambda>s. s \<notin> set [data_object]) ?names)"
    using single by (rule scan_cells_span)
  also have "filter (\<lambda>s. s \<notin> set [data_object]) ?names = ?names"
    using cell_names_no_marker [OF single] by (auto simp: filter_id_conv)
  finally have "collect_attributes (Some grid) = data_object # dedup_first ?names"
    by simp
  then show ?thesis
    by (simp add: extract_eq_filter not_excl_do)
qed

theorem schema_extraction_witness:
  "take 3 ex_grid = [[Text ex_title]] @ ex_header # [[Text data_object, Text ex_sht]]
   \<and> is_marker_cell (Text decorated_marker) \<and> \<not> is_stop_cell (Text decorated_marker)
   \<and> extract_attributes_from_template (Some ex_grid) = [data_object, ex_marka]"
proof -
  let ?rest = "[Text ex_marka, Text [32], Other False [48], Text ex_marka, Text name_of_class,
     Text base_unit, Text ex_sht]"
  have h1: "take 3 ex_grid = [[Text ex_title]] @ ex_header # [[Text data_object, Text ex_sht]]"
    by (simp add: ex_grid_def)
  have h2: "\<forall>r' \<in> set [[Text ex_title]]. \<not> marker_row r'"
    by (simp add: str_eval lit_eval cell_eval)
  have h3: "ex_header = [Empty] @ Text decorated_marker # ?rest"
    by (simp add: ex_header_def)
  have h4: "\<forall>c \<in> set [Empty]. blank_cell c"
    by (simp add: blank_cell_def)
  have h5: "is_marker_cell (Text decorated_marker)"
    by (simp add: str_eval lit_eval cell_eval)
  have h6: "\<not> is_stop_cell (Text decorated_marker)"
    by (simp add: str_eval lit_eval cell_eval)
  have h7: "\<forall>c \<in> set (takeWhile (\<lambda>c. \<not> is_stop_cell c) ?rest). \<not> is_marker_cell c"
    by (simp add: str_eval lit_eval cell_eval)
  have names: "filter (\<lambda>n. \<not> excluded_by_label n)
                 (dedup_first (cell_names (takeWhile (\<lambda>c. \<not> is_stop_cell c) ?rest))) = [ex_marka]"
    by (simp add: str_eval lit_eval cell_eval)
  from schema_extraction [OF h1 h2 h3 h4 h5 h6 h7] names
  have "extract_attributes_from_template (Some ex_grid) = [data_object, ex_marka]"
    by simp
  with h1 h5 h6 show ?thesis
    by blast
qed

section \<open>The exclusion filter\<close>

text \<open>
  Claim C5: schema filtering drops exactly the collected names whose lowercase form
  equals, contains or is contained in the lowercase form of one of the five excluded
  labels, and keeps every other collected name, in order; "Naimenovanie klassa" is such
  a name and is in no extracted schema.
\<close>

theorem exclusion_filter:
  "extract_attributes_from_template wb
     = filter (\<lambda>n. \<not> excluded_by_label n) (collect_attributes wb)
   \<and> excluded_by_label name_of_class
   \<and> name_of_class \<notin> set (extract_attributes_from_template wb)"
proof -
  have "extract_attributes_from_template wb
          = filter (\<lambda>n. \<not> excluded_by_label n) (collect_attributes wb)"
    by (rule extract_eq_filter)
  moreover have "excluded_by_label name_of_class"
    by (rule excl_nc)
  ultimately show ?thesis
    by simp
qed

theorem exclusion_filter_witness:
  "collect_attributes (Some ex_grid) = [data_object, ex_marka, name_of_class]
   \<and> extract_attributes_from_template (Some ex_grid) = [data_object, ex_marka]
   \<and> name_of_class \<notin> set (extract_attributes_from_template (Some ex_grid))"
proof -
  have c: "collect_attributes (Some ex_grid) = [data_object, ex_marka, name_of_class]"
    by (simp add: str_eval lit_eval cell_eval ex_grid_def ex_header_def Let_def)
  have k: "\<not> excluded_by_label data_object" "\<not> excluded_by_label ex_marka"
    by (simp_all add: str_eval lit_eval cell_eval)
  from exclusion_filter [of "Some ex_grid"]
  have e: "extract_attributes_from_template (Some ex_grid)
             = filter (\<lambda>n. \<not> excluded_by_label n) (collect_attributes (Some ex_grid))"
    and x: "excluded_by_label name_of_class"
    and n: "name_of_class \<notin> set (extract_attributes_from_template (Some ex_grid))"
    by blast+
  have "filter (\<lambda>n. \<not> excluded_by_label n) [data_object, ex_marka, name_of_class]
          = [data_object, ex_marka]"
    using k x by simp
  with e have "extract_attributes_from_template (Some ex_grid) = [data_object, ex_marka]"
    by (simp only: c)
  with c n show ?thesis
    by blast
qed

section \<open>Values that are never extracted\<close>

text \<open>
  Claim C7: every record that value extraction returns is non-empty, and each of its
  values is the trimmed text of a cell that is not NA, in the column of a matched
  attribute of one data row, and is neither empty nor, in lowercase, one of "nan",
  "none", "null". So no cell with such a text is in any record, and a row from which
  nothing is kept leaves no record.
\<close>

theorem skip_policy:
  "\<forall>record_values \<in> set (extract_values_from_records frame matched).
     record_values \<noteq> []
     \<and> (\<exists>df r. frame = Some df \<and> r \<in> set (df_rows df)
          \<and> (\<forall>(attr, v) \<in> set record_values.
                attr \<in> set matched
                \<and> (\<exists>raw. cell_at (map strip (df_columns df)) r attr = Some raw \<and> v = strip raw)
                \<and> v \<noteq> [] \<and> py_lower v \<notin> set skip_values))"
proof (cases frame)
  case None
  then show ?thesis by simp
next
  case (Some df)
  have "\<forall>rv \<in> set (values_loop (map strip (df_columns df)) (df_rows df) matched []).
          kept_record (map strip (df_columns df)) (df_rows df) matched rv"
    by (rule values_loop_kept) simp_all
  with Some show ?thesis
    by (fastforce simp: kept_record_def kept_cell_def)
qed

theorem skip_policy_witness:
  "extract_values_from_records (Some ex_frame) [ex_marka, [120]] = [[(ex_marka, ex_abv)]]
   \<and> [(ex_marka, ex_abv)] \<noteq> []
   \<and> ex_abv \<noteq> [] \<and> py_lower ex_abv \<notin> set skip_values"
proof -
  have run: "extract_values_from_records (Some ex_frame) [ex_marka, [120]] = [[(ex_marka, ex_abv)]]"
    by (simp add: ex_frame_def ex_marka_def ex_abv_def cell_at_def skip_values_def str_eval
        Let_def)
  then have "[(ex_marka, ex_abv)] \<in> set (extract_values_from_records (Some ex_frame) [ex_marka, [120]])"
    by simp
  with skip_policy [of "Some ex_frame" "[ex_marka, [120]]"]
  have "[(ex_marka, ex_abv)] \<noteq> [] \<and> ex_abv \<noteq> [] \<and> py_lower ex_abv \<notin> set skip_values"
    by fastforce
  with run show ?thesis
    by simp
qed

section \<open>Collapsed values and reference files\<close>



section \<open>Root folder resolution\<close>

text \<open>
  Claim C4: without a directory named "Ontologiya GRM" the walker is to fall back to the
  first top-level directory and to raise the structure error only when the top level has
  no directory. The code looks at the first top-level entry only: on an archive whose
  first entry is a file and whose second entry is a directory with a complete template
  folder, in every environment, no root is found and the structure error is raised,
  although the same two entries in the other order are processed.
\<close>

theorem root_fallback_first_entry_only:
  "filter is_dir cx_items = [cx_data_dir]
   \<and> filter is_dir (rglob ontology_grm (Dir [] cx_items)) = []
   \<and> find_root e cx_items = None
   \<and> process_extracted_structure e cx_items = Inl StructureError
   \<and> shown (process_ontology_archive e (Zip cx_items)) = ProcessingError
   \<and> find_root e (rev cx_items) = Some cx_data_dir"
proof -
  have dirs: "filter is_dir cx_items = [cx_data_dir]"
    by (simp add: cx_items_def cx_data_dir_def)
  have none: "filter is_dir (rglob ontology_grm (Dir [] cx_items)) = []"
    by (simp add: cx_items_def cx_data_dir_def tree_eval)
  have none_rev: "filter is_dir (rglob ontology_grm (Dir [] (rev cx_items))) = []"
    by (simp add: cx_items_def cx_data_dir_def tree_eval)
  have root: "find_root e cx_items = None"
    unfolding find_root_def none by (simp add: cx_items_def)
  have other: "find_root e (rev cx_items) = Some cx_data_dir"
    unfolding find_root_def none_rev by (simp add: cx_items_def cx_data_dir_def)
  from root have err: "process_extracted_structure e cx_items = Inl StructureError"
    by (simp add: process_extracted_structure_def)
  then have "shown (process_ontology_archive e (Zip cx_items)) = ProcessingError"
    by (simp add: process_ontology_archive_def cx_items_def)
  with dirs none root err other show ?thesis
    by simp
qed

section \<open>Template folders without a pair of files\<close>

text \<open>
  Claim C8: when a template folder has no file whose lowercase name contains the template
  key, or none whose lowercase name contains the records key, processing it leaves both
  accumulators as they are, so the traversal gives what it gives without that folder and
  raises nothing. The run is then the run on what the other folders yield: when they
  yield a record or a missing-attribute entry, the message is not the warning of an
  empty result, the results are written from their records and entries, and the run
  ends with the report and the archive of results whenever the writes and the packing
  succeed.
\<close>

theorem incomplete_folder_skipped:
  assumes "\<not> (\<exists>f \<in> set files. template_named f) \<or> \<not> (\<exists>f \<in> set files. records_named f)"
  shows "process_template_dir class_name template_name files acc = acc
       \<and> process_dirs (pre @ (class_name, template_name, files) # post) acc
           = process_dirs (pre @ post) acc
       \<and> (\<forall>e items root_path.
             items \<noteq> [] \<and> find_root e items = Some root_path
             \<and> all_dirs root_path = pre @ (class_name, template_name, files) # post
           \<longrightarrow> process_extracted_structure e items = Inr (process_dirs (pre @ post) ([], []))
             \<and> (process_dirs (pre @ post) ([], []) \<noteq> ([], []) \<longrightarrow>
                  process_ontology_archive e (Zip items) =
                    write_results e (fst (process_dirs (pre @ post) ([], [])))
                                    (snd (process_dirs (pre @ post) ([], [])))
                  \<and> shown (process_ontology_archive e (Zip items)) \<noteq> NoDataFound
                  \<and> (\<forall>created.
                        create_output_files e (fst (process_dirs (pre @ post) ([], [])))
                                              (snd (process_dirs (pre @ post) ([], [])))
                          = Inr created \<and> zip_ok e
                      \<longrightarrow> process_ontology_archive e (Zip items) =
                            \<lparr>result_zip = Some created, shown = Report, temp_dir = Kept\<rparr>)))"
proof -
  have skip: "process_template_dir class_name template_name files a = a" for a
    using assms by (rule skip_without_pair)
  have fold: "process_dirs (pre @ (class_name, template_name, files) # post) a
                = process_dirs (pre @ post) a" for a
    by (simp add: process_dirs_append skip)
  have run: "process_extracted_structure e items = Inr (process_dirs (pre @ post) ([], []))
             \<and> (process_dirs (pre @ post) ([], []) \<noteq> ([], []) \<longrightarrow>
                  process_ontology_archive e (Zip items) =
                    write_results e (fst (process_dirs (pre @ post) ([], [])))
                                    (snd (process_dirs (pre @ post) ([], [])))
                  \<and> shown (process_ontology_archive e (Zip items)) \<noteq> NoDataFound
                  \<and> (\<forall>created.
                        create_output_files e (fst (process_dirs (pre @ post) ([], [])))
                                              (snd (process_dirs (pre @ post) ([], [])))
                          = Inr created \<and> zip_ok e
                      \<longrightarrow> process_ontology_archive e (Zip items) =
                            \<lparr>result_zip = Some created, shown = Report, temp_dir = Kept\<rparr>))"
    if "items \<noteq> [] \<and> find_root e items = Some root_path
        \<and> all_dirs root_path = pre @ (class_name, template_name, files) # post"
    for e items root_path
  proof -
    obtain d m where dm: "process_dirs (pre @ post) ([], []) = (d, m)"
      by (cases "process_dirs (pre @ post) ([], [])")
    have res: "process_extracted_structure e items = Inr (d, m)"
      using that by (simp add: process_extracted_structure_def fold dm)
    have succ: "process_ontology_archive e (Zip items) = write_results e d m
          \<and> shown (process_ontology_archive e (Zip items)) \<noteq> NoDataFound
          \<and> (\<forall>created. create_output_files e d m = Inr created \<and> zip_ok e
                \<longrightarrow> process_ontology_archive e (Zip items) =
                      \<lparr>result_zip = Some created, shown = Report, temp_dir = Kept\<rparr>)"
      if "d \<noteq> [] \<or> m \<noteq> []"
    proof -
      from that \<open>items \<noteq> [] \<and> _\<close> res
      have r: "process_ontology_archive e (Zip items) = write_results e d m"
        by (simp add: run_with_results)
      show ?thesis
        unfolding r using write_results_shown write_results_created by blast
    qed
    show ?thesis
      unfolding dm fst_conv snd_conv
    proof (rule conjI)
      show "process_extracted_structure e items = Inr (d, m)"
        by (rule res)
      show "(d, m) \<noteq> ([], []) \<longrightarrow>
            process_ontology_archive e (Zip items) = write_results e d m
            \<and> shown (process_ontology_archive e (Zip items)) \<noteq> NoDataFound
            \<and> (\<forall>created. create_output_files e d m = Inr created \<and> zip_ok e
                  \<longrightarrow> process_ontology_archive e (Zip items) =
                        \<lparr>result_zip = Some created, shown = Report, temp_dir = Kept\<rparr>)"
      proof (rule impI)
        assume "(d, m) \<noteq> ([], [])"
        then have "d \<noteq> [] \<or> m \<noteq> []"
          by simp
        then show "process_ontology_archive e (Zip items) = write_results e d m
            \<and> shown (process_ontology_archive e (Zip items)) \<noteq> NoDataFound
            \<and> (\<forall>created. create_output_files e d m = Inr created \<and> zip_ok e
                  \<longrightarrow> process_ontology_archive e (Zip items) =
                        \<lparr>result_zip = Some created, shown = Report, temp_dir = Kept\<rparr>)"
          by (rule succ)
      qed
    qed
  qed
  from skip fold run show ?thesis
    by blast
qed

theorem incomplete_folder_skipped_witness:
  "\<not> (\<exists>f \<in> set [ex_template_file]. records_named f)
   \<and> process_template_dir ex_class [80] [ex_template_file] ([], []) = ([], [])
   \<and> process_extracted_structure posix_env [ex_root] = Inr (ex_extracted, ex_missing)
   \<and> process_ontology_archive posix_env (Zip [ex_root]) =
        \<lparr>result_zip = Some ex_outputs, shown = Report, temp_dir = Kept\<rparr>"
proof -
  let ?post = "[(ex_class, ex_nasos, [ex_template_file, ex_records_file])]"
  have no_records: "\<not> (\<exists>f \<in> set [ex_template_file]. records_named f)"
    by (simp add: tree_eval str_eval)
  then have h: "\<not> (\<exists>f \<in> set [ex_template_file]. template_named f)
                  \<or> \<not> (\<exists>f \<in> set [ex_template_file]. records_named f)"
    by (rule disjI2)
  have others: "process_dirs ([] @ ?post) ([], []) = (ex_extracted, ex_missing)"
    by (simp add: ex_dir)
  then have some: "process_dirs ([] @ ?post) ([], []) \<noteq> ([], [])"
    by (simp add: ex_extracted_def)
  note inst = incomplete_folder_skipped [OF h, of ex_class "[80]" "([], [])" "[]" ?post]
  note skip = inst [THEN conjunct1]
  have prem: "[ex_root] \<noteq> [] \<and> find_root posix_env [ex_root] = Some ex_root
      \<and> all_dirs ex_root = [] @ (ex_class, [80], [ex_template_file]) # ?post"
    using ex_root_found ex_all_dirs by simp
  note run = inst [THEN conjunct2, THEN conjunct2, THEN spec, THEN spec, THEN spec, THEN mp,
      OF prem]
  note trav = run [THEN conjunct1, unfolded others]
  have created: "create_output_files posix_env (fst (process_dirs ([] @ ?post) ([], [])))
                   (snd (process_dirs ([] @ ?post) ([], []))) = Inr ex_outputs
                 \<and> zip_ok posix_env"
    unfolding others using ex_created by (simp add: posix_env_def)
  note report = run [THEN conjunct2, THEN mp, OF some, THEN conjunct2, THEN conjunct2, THEN spec,
      THEN mp, OF created]
  from no_records skip trav report show ?thesis
    by (intro conjI)
qed

section \<open>The run without results\<close>

text \<open>
  Claim C9: the run ends with the message that no data was found exactly when the
  archive was unpacked, was not empty, and the traversal returned neither a record nor a
  missing-attribute entry. That message is a warning; with it no archive of results is
  returned and the workspace is removed. When the traversal returns at least one record
  or one missing-attribute entry, the run goes on to create the output files from them
  and the message is not that warning: the run ends with the report and the archive of
  results when the writes and the packing succeed, and with the critical error, no
  archive and the workspace removed when one of them raises.
\<close>

theorem empty_result_warning:
  "(shown (process_ontology_archive e u) = NoDataFound \<longleftrightarrow>
      (\<exists>items. u = Zip items \<and> items \<noteq> []
         \<and> process_extracted_structure e items = Inr ([], [])))
   \<and> (shown (process_ontology_archive e u) = NoDataFound \<longrightarrow>
        severity_of (shown (process_ontology_archive e u)) = Warning
        \<and> result_zip (process_ontology_archive e u) = None
        \<and> temp_dir (process_ontology_archive e u) = Removed)
   \<and> (\<forall>items d m. u = Zip items \<and> items \<noteq> []
          \<and> process_extracted_structure e items = Inr (d, m) \<and> (d \<noteq> [] \<or> m \<noteq> [])
        \<longrightarrow> process_ontology_archive e u = write_results e d m
          \<and> shown (process_ontology_archive e u) \<noteq> NoDataFound
          \<and> (\<forall>created. create_output_files e d m = Inr created \<and> zip_ok e \<longrightarrow>
                process_ontology_archive e u =
                  \<lparr>result_zip = Some created, shown = Report, temp_dir = Kept\<rparr>)
          \<and> ((\<exists>err. create_output_files e d m = Inl err) \<or> \<not> zip_ok e \<longrightarrow>
                process_ontology_archive e u =
                  \<lparr>result_zip = None, shown = CriticalError, temp_dir = Removed\<rparr>))"
proof (intro conjI)
  show "shown (process_ontology_archive e u) = NoDataFound \<longleftrightarrow>
      (\<exists>items. u = Zip items \<and> items \<noteq> []
         \<and> process_extracted_structure e items = Inr ([], []))"
    by (rule run_without_results)
  show "shown (process_ontology_archive e u) = NoDataFound \<longrightarrow>
        severity_of (shown (process_ontology_archive e u)) = Warning
        \<and> result_zip (process_ontology_archive e u) = None
        \<and> temp_dir (process_ontology_archive e u) = Removed"
    using run_warning by blast
  show "\<forall>items d m. u = Zip items \<and> items \<noteq> []
          \<and> process_extracted_structure e items = Inr (d, m) \<and> (d \<noteq> [] \<or> m \<noteq> [])
        \<longrightarrow> process_ontology_archive e u = write_results e d m
          \<and> shown (process_ontology_archive e u) \<noteq> NoDataFound
          \<and> (\<forall>created. create_output_files e d m = Inr created \<and> zip_ok e \<longrightarrow>
                process_ontology_archive e u =
                  \<lparr>result_zip = Some created, shown = Report, temp_dir = Kept\<rparr>)
          \<and> ((\<exists>err. create_output_files e d m = Inl err) \<or> \<not> zip_ok e \<longrightarrow>
                process_ontology_archive e u =
                  \<lparr>result_zip = None, shown = CriticalError, temp_dir = Removed\<rparr>)"
  proof (intro allI impI)
    fix items d m
    assume a: "u = Zip items \<and> items \<noteq> []
          \<and> process_extracted_structure e items = Inr (d, m) \<and> (d \<noteq> [] \<or> m \<noteq> [])"
    then have run: "process_ontology_archive e u = write_results e d m"
      using run_with_results by blast
    show "process_ontology_archive e u = write_results e d m
          \<and> shown (process_ontology_archive e u) \<noteq> NoDataFound
          \<and> (\<forall>created. create_output_files e d m = Inr created \<and> zip_ok e \<longrightarrow>
                process_ontology_archive e u =
                  \<lparr>result_zip = Some created, shown = Report, temp_dir = Kept\<rparr>)
          \<and> ((\<exists>err. create_output_files e d m = Inl err) \<or> \<not> zip_ok e \<longrightarrow>
                process_ontology_archive e u =
                  \<lparr>result_zip = None, shown = CriticalError, temp_dir = Removed\<rparr>)"
      unfolding run
      using write_results_shown write_results_created write_results_failed by blast
  qed
qed

theorem empty_result_warning_witness:
  "process_ontology_archive posix_env (Zip [Dir ontology_grm []]) =
     \<lparr>result_zip = None, shown = NoDataFound, temp_dir = Removed\<rparr>
   \<and> severity_of (shown (process_ontology_archive posix_env (Zip [Dir ontology_grm []]))) = Warning
   \<and> process_extracted_structure posix_env [ex_root] = Inr (ex_extracted, ex_missing)
   \<and> process_ontology_archive posix_env (Zip [ex_root]) =
        \<lparr>result_zip = Some ex_outputs, shown = Report, temp_dir = Kept\<rparr>
   \<and> process_ontology_archive full_disk_env (Zip [ex_root]) =
        \<lparr>result_zip = None, shown = CriticalError, temp_dir = Removed\<rparr>"
proof -
  let ?empty = "Zip [Dir ontology_grm []]"
  note inst0 = empty_result_warning [of posix_env ?empty]
  have trav: "process_extracted_structure posix_env [Dir ontology_grm []] = Inr ([], [])"
    by (simp add: process_extracted_structure_def find_root_def all_dirs_def)
  then have "\<exists>items. ?empty = Zip items \<and> items \<noteq> []
                \<and> process_extracted_structure posix_env items = Inr ([], [])"
    by simp
  with inst0 [THEN conjunct1]
  have nd: "shown (process_ontology_archive posix_env ?empty) = NoDataFound"
    by (rule iffD2)
  note warn = inst0 [THEN conjunct2, THEN conjunct1, THEN mp, OF nd]
  from nd warn have a: "process_ontology_archive posix_env ?empty =
       \<lparr>result_zip = None, shown = NoDataFound, temp_dir = Removed\<rparr>"
    by (cases "process_ontology_archive posix_env ?empty") simp
  from warn have b: "severity_of (shown (process_ontology_archive posix_env ?empty)) = Warning"
    by (rule conjunct1)
  have some: "ex_extracted \<noteq> [] \<or> ex_missing \<noteq> []"
    by (simp add: ex_extracted_def)
  have zip: "zip_ok posix_env"
    by (simp add: posix_env_def)
  have prem: "Zip [ex_root] = Zip [ex_root] \<and> [ex_root] \<noteq> []
      \<and> process_extracted_structure e [ex_root] = Inr (ex_extracted, ex_missing)
      \<and> (ex_extracted \<noteq> [] \<or> ex_missing \<noteq> [])" for e
    using ex_run [of e] some by simp
  note good = empty_result_warning [of posix_env "Zip [ex_root]", THEN conjunct2, THEN conjunct2,
      THEN spec, THEN spec, THEN spec, THEN mp, OF prem]
  note c = good [THEN conjunct2, THEN conjunct2, THEN conjunct1, THEN spec, THEN mp,
      OF conjI [OF ex_created zip]]
  have failed: "(\<exists>err. create_output_files full_disk_env ex_extracted ex_missing = Inl err)
                 \<or> \<not> zip_ok full_disk_env"
    using ex_not_created by blast
  note bad = empty_result_warning [of full_disk_env "Zip [ex_root]", THEN conjunct2,
      THEN conjunct2, THEN spec, THEN spec, THEN spec, THEN mp, OF prem]
  note d = bad [THEN conjunct2, THEN conjunct2, THEN conjunct2, THEN mp, OF failed]
  from a b ex_run [of posix_env] c d show ?thesis
    by (intro conjI)
qed

section \<open>Several files that match a key\<close>

text \<open>
  Claim C10 as stated fails for the records file: a file whose name contains both keys
  is taken as the template file and is passed over as records file. In a folder with the
  files "1predzap.xlsx" and "predzap.xlsx.shablon.xlsx", in this order, two names contain
  the records key; the records file used is the first, not the last.
\<close>

theorem last_file_wins_counterexample:
  "length (filter records_named [cx_records_first, cx_both_keys]) = 2
   \<and> last_where records_named [cx_records_first, cx_both_keys] = Some cx_both_keys
   \<and> find_files [cx_records_first, cx_both_keys] (None, None)
       = (Some cx_both_keys, Some cx_records_first)
   \<and> snd (find_files [cx_records_first, cx_both_keys] (None, None))
       \<noteq> last_where records_named [cx_records_first, cx_both_keys]"
proof -
  have n: "length (filter records_named [cx_records_first, cx_both_keys]) = 2"
    by (simp add: cx_records_first_def cx_both_keys_def tree_eval str_eval)
  have l: "last_where records_named [cx_records_first, cx_both_keys] = Some cx_both_keys"
    by (simp add: last_where_def cx_records_first_def cx_both_keys_def tree_eval str_eval)
  have f: "find_files [cx_records_first, cx_both_keys] (None, None)
             = (Some cx_both_keys, Some cx_records_first)"
    by (simp add: cx_records_first_def cx_both_keys_def tree_eval str_eval)
  have "cx_records_first \<noteq> cx_both_keys"
    by (simp add: cx_records_first_def cx_both_keys_def)
  with n l f show ?thesis
    by simp
qed

text \<open>
  Claim C10, amended: whatever the number of files that match, the scan of a template
  folder ends with the last file whose lowercase name contains the template key as
  template file, and with the last file whose lowercase name contains the records key
  but not the template key as records file; when both exist the folder is processed
  with these two files. Nothing in the scan asks for a single match.
\<close>

theorem last_file_wins:
  "find_files files (None, None) =
     (last_where template_named files,
      last_where (\<lambda>f. records_named f \<and> \<not> template_named f) files)
   \<and> (\<forall>template_file records_file.
         last_where template_named files = Some template_file
         \<and> last_where (\<lambda>f. records_named f \<and> \<not> template_named f) files = Some records_file
       \<longrightarrow> process_template_dir class_name template_name files acc
             = process_pair class_name template_name template_file records_file acc)"
  by (simp add: find_files_start process_template_dir_def)

theorem last_file_wins_witness:
  "find_files [ex_template_file, cx_records_first, ex_template_upper, ex_records_file] (None, None)
     = (Some ex_template_upper, Some ex_records_file)
   \<and> process_template_dir ex_class ex_nasos
        [ex_template_file, cx_records_first, ex_template_upper, ex_records_file] ([], [])
     = process_pair ex_class ex_nasos ex_template_upper ex_records_file ([], [])"
proof -
  let ?files = "[ex_template_file, cx_records_first, ex_template_upper, ex_records_file]"
  have t: "last_where template_named ?files = Some ex_template_upper"
    by (simp add: last_where_def cx_records_first_def ex_template_upper_def tree_eval str_eval)
  have r: "last_where (\<lambda>f. records_named f \<and> \<not> template_named f) ?files = Some ex_records_file"
    by (simp add: last_where_def cx_records_first_def ex_template_upper_def tree_eval str_eval)
  from last_file_wins [of ?files ex_class ex_nasos "([], [])"] t r
  show ?thesis
    by simp
qed

end
